theory Spec2Isabelle
  imports Main "HOL-Library.Word" "HOL-Library.Sublist"
begin

section \<open>The lake transaction log applier (be/src/storage/lake/txn\_log\_applier.cpp)\<close>

text \<open>
  A shallow embedding of \<^verbatim>\<open>PrimaryKeyTxnLogApplier\<close>, \<^verbatim>\<open>NonPrimaryKeyTxnLogApplier\<close>,
  the shared \<^verbatim>\<open>apply_alter_meta_log\<close> and the factory \<^verbatim>\<open>new_txn_log_applier\<close>. Every
  member function takes the state it mutates and returns its \<^verbatim>\<open>Status\<close> together with
  the state as the function leaves it, so that what an error path has already written
  stays visible.

  Integers follow the C++ types: rowset ids, \<^verbatim>\<open>next_rowset_id\<close> and \<^verbatim>\<open>cumulative_point\<close>
  are \<^verbatim>\<open>uint32\<close> and wrap around; an \<^verbatim>\<open>int\<close> size that meets a \<^verbatim>\<open>uint32\<close> in an
  addition or a comparison is converted to \<^verbatim>\<open>uint32\<close> first; versions, transaction ids
  and row counts are \<^verbatim>\<open>int64\<close> values that the code only copies, compares and, once,
  increments. Not part of the model: logging, \<^verbatim>\<open>DCHECK\<close> assertions and
  \<^verbatim>\<open>TEST_ERROR_POINT\<close> hooks (none of them acts in a release build), \<^verbatim>\<open>init\<close> and the
  destructor's \<^verbatim>\<open>handle_failure\<close>.
\<close>

subsection \<open>Status, configuration, protobuf messages\<close>

type_synonym u32 = "32 word"

datatype status = OK | InternalError string | Corruption string | IOError string

record config =
  enable_primary_key_recover :: bool
  enable_size_tiered_compaction_strategy :: bool

datatype keys_type = DUP_KEYS | UNIQUE_KEYS | AGG_KEYS | PRIMARY_KEYS

record tablet_schema =
  keys_type :: keys_type
  columns :: "string list"

text \<open>
  \<^verbatim>\<open>RowsetMetadata\<close>: the id is an unsigned 32-bit field, the segments a repeated field
  (the code only reads its size), \<^verbatim>\<open>has_delete_predicate\<close> the presence of the
  delete predicate.
\<close>

record rowset_metadata =
  rowset_id :: u32
  segments :: "string list"
  num_rows :: int
  has_delete_predicate :: bool

definition segments_size :: "rowset_metadata \<Rightarrow> nat" where
  "segments_size r = length (segments r)"

text \<open>The default instance a protobuf getter returns for an absent message field.\<close>

definition default_rowset :: rowset_metadata where
  "default_rowset =
     \<lparr>rowset_id = 0, segments = [], num_rows = 0, has_delete_predicate = False\<rparr>"

type_synonym delvec_metadata = "(u32 \<times> string) list"

record tablet_metadata =
  tablet_id :: int
  version :: int
  schema :: tablet_schema
  enable_persistent_index :: bool
  rowsets :: "rowset_metadata list"
  next_rowset_id :: u32
  cumulative_point :: u32
  delvec_meta :: delvec_metadata
  compaction_inputs :: "rowset_metadata list"
  source_schema :: "tablet_schema option"

record op_write =
  rowset :: "rowset_metadata option"
  dels :: "string list"

record op_compaction =
  input_rowsets :: "u32 list"
  output_rowset :: "rowset_metadata option"

record op_schema_change =
  sc_rowsets :: "rowset_metadata list"
  sc_delvec_meta :: "delvec_metadata option"
  alter_version :: int
  linked_segment :: bool

record metadata_update_info =
  upd_enable_persistent_index :: "bool option"
  upd_tablet_schema :: "tablet_schema option"

record op_alter_metadata =
  metadata_update_infos :: "metadata_update_info list"

text \<open>
  \<^verbatim>\<open>ReplicationTxnStatePB\<close> is declared outside this file; the code names only
  \<^verbatim>\<open>TXN_REPLICATED\<close> and prints the others through \<^verbatim>\<open>ReplicationTxnStatePB_Name\<close>.
\<close>

datatype replication_txn_state = TXN_PREPARED | TXN_SNAPSHOTED | TXN_REPLICATED | TXN_PUBLISHED

fun ReplicationTxnStatePB_Name :: "replication_txn_state \<Rightarrow> string" where
  "ReplicationTxnStatePB_Name TXN_PREPARED = ''TXN_PREPARED''"
| "ReplicationTxnStatePB_Name TXN_SNAPSHOTED = ''TXN_SNAPSHOTED''"
| "ReplicationTxnStatePB_Name TXN_REPLICATED = ''TXN_REPLICATED''"
| "ReplicationTxnStatePB_Name TXN_PUBLISHED = ''TXN_PUBLISHED''"

record replication_txn_meta =
  txn_state :: replication_txn_state
  snapshot_version :: int
  incremental_snapshot :: bool
  meta_txn_id :: int

text \<open>
  \<^verbatim>\<open>delvecs\<close> is a protobuf map from segment id to delvec bytes; the list gives the
  order in which the range-for of the code visits it.
\<close>

record op_replication =
  txn_meta :: replication_txn_meta
  op_writes :: "op_write list"
  delvecs :: "(u32 \<times> string) list"
  rep_source_schema :: "tablet_schema option"

record txn_log =
  txn_id :: int
  log_op_write :: "op_write option"
  log_op_compaction :: "op_compaction option"
  log_op_schema_change :: "op_schema_change option"
  log_op_alter_metadata :: "op_alter_metadata option"
  log_op_replication :: "op_replication option"

subsection \<open>Formatting of numbers in error messages\<close>

definition digit_char :: "nat \<Rightarrow> char" where
  "digit_char d = ''0123456789'' ! d"

fun fmt_nat :: "nat \<Rightarrow> string" where
  "fmt_nat n = (if n < 10 then [digit_char n] else fmt_nat (n div 10) @ [digit_char (n mod 10)])"

declare fmt_nat.simps [simp del]

subsection \<open>NonPrimaryKeyTxnLogApplier: write\<close>

text \<open>
  \<^verbatim>\<open>op_write.rowset()\<close> of a write without rowset is the default instance; the guard of
  the non-primary-key write asks \<^verbatim>\<open>has_rowset()\<close> first.
\<close>

definition nonpk_apply_write_log :: "op_write \<Rightarrow> tablet_metadata \<Rightarrow> status \<times> tablet_metadata" where
  "nonpk_apply_write_log op m =
     (case rowset op of
        None \<Rightarrow> (OK, m)
      | Some r \<Rightarrow>
          if num_rows r > 0 \<or> has_delete_predicate r then
            (OK, m\<lparr>rowsets := rowsets m @ [r\<lparr>rowset_id := next_rowset_id m\<rparr>],
                   next_rowset_id := next_rowset_id m + of_nat (max 1 (segments_size r))\<rparr>)
          else (OK, m))"

text \<open>The loop \<^verbatim>\<open>for (op_write : op_writes) RETURN_IF_ERROR(apply_write_log(op_write))\<close>.\<close>

fun nonpk_apply_write_logs :: "op_write list \<Rightarrow> tablet_metadata \<Rightarrow> status \<times> tablet_metadata" where
  "nonpk_apply_write_logs [] m = (OK, m)"
| "nonpk_apply_write_logs (w # ws) m =
     (case nonpk_apply_write_log w m of
        (OK, m') \<Rightarrow> nonpk_apply_write_logs ws m'
      | (st, m') \<Rightarrow> (st, m'))"

subsection \<open>NonPrimaryKeyTxnLogApplier: compaction\<close>

text \<open>
  \<^verbatim>\<open>std::find_if(begin + first, end, Finder{id})\<close> as a position; the length of the list
  is \<^verbatim>\<open>end()\<close>.
\<close>

definition find_if :: "nat \<Rightarrow> u32 \<Rightarrow> rowset_metadata list \<Rightarrow> nat" where
  "find_if first x rs = first + length (takeWhile (\<lambda>r. rowset_id r \<noteq> x) (drop first rs))"

text \<open>
  The safety check over \<^verbatim>\<open>input_rowsets(1..)\<close>: the result is the last
  \<^verbatim>\<open>pre_input_pos\<close>, or the error of the first input that is missing behind its
  predecessor or found further away than the next slot.
\<close>

fun check_adjacent :: "rowset_metadata list \<Rightarrow> nat \<Rightarrow> u32 list \<Rightarrow> status + nat" where
  "check_adjacent rs pre_input_pos [] = Inr pre_input_pos"
| "check_adjacent rs pre_input_pos (input_id # ids) =
     (let it = find_if (pre_input_pos + 1) input_id rs in
      if it = length rs then
        Inl (InternalError (''input rowset '' @ fmt_nat (unat input_id) @ '' not exist''))
      else if it \<noteq> pre_input_pos + 1 then
        Inl (InternalError ''input rowset position not adjacent'')
      else check_adjacent rs it ids)"

definition has_output :: "op_compaction \<Rightarrow> bool" where
  "has_output op = (case output_rowset op of None \<Rightarrow> False | Some r \<Rightarrow> num_rows r > 0)"

definition erase :: "nat \<Rightarrow> nat \<Rightarrow> 'a list \<Rightarrow> 'a list" where
  "erase first_pos last_pos xs = take first_pos xs @ drop last_pos xs"

text \<open>
  Lines 376 to 392: the input slice is added to \<^verbatim>\<open>compaction_inputs\<close>, the output rowset
  (when it has rows) overwrites the first input slot under the id \<^verbatim>\<open>next_rowset_id\<close>,
  \<^verbatim>\<open>next_rowset_id\<close> moves on by the output's \<^verbatim>\<open>segments_size()\<close>, and the rest of
  the slice is erased.
\<close>

definition splice :: "op_compaction \<Rightarrow> nat \<Rightarrow> nat \<Rightarrow> tablet_metadata \<Rightarrow> tablet_metadata" where
  "splice op first_input_pos end_input_pos m =
     (let m1 = m\<lparr>compaction_inputs :=
                   compaction_inputs m @ take (end_input_pos - first_input_pos) (drop first_input_pos (rowsets m))\<rparr>
      in if has_output op then
           (let output = (case output_rowset op of None \<Rightarrow> default_rowset | Some r \<Rightarrow> r);
                m2 = m1\<lparr>rowsets := (rowsets m1)[first_input_pos := output\<lparr>rowset_id := next_rowset_id m1\<rparr>],
                        next_rowset_id := next_rowset_id m1 + of_nat (segments_size output)\<rparr>
            in m2\<lparr>rowsets := erase (first_input_pos + 1) end_input_pos (rowsets m2)\<rparr>)
         else m1\<lparr>rowsets := erase first_input_pos end_input_pos (rowsets m1)\<rparr>)"

text \<open>
  Lines 394 to 413, on the metadata after the splice: the status and the metadata the
  function returns. The error return comes before \<^verbatim>\<open>set_cumulative_point\<close>.
\<close>

definition set_new_cumulative_point ::
  "config \<Rightarrow> op_compaction \<Rightarrow> u32 \<Rightarrow> tablet_metadata \<Rightarrow> status \<times> tablet_metadata" where
  "set_new_cumulative_point cfg op first_idx m =
     (if enable_size_tiered_compaction_strategy cfg then (OK, m\<lparr>cumulative_point := 0\<rparr>)
      else
        (let cp0 = (if first_idx \<ge> cumulative_point m then first_idx
                    else if cumulative_point m \<ge> of_nat (length (input_rowsets op))
                    then cumulative_point m - of_nat (length (input_rowsets op))
                    else 0);
             new_cumulative_point = (if has_output op then cp0 + 1 else cp0)
         in if new_cumulative_point > of_nat (length (rowsets m)) then
              (InternalError (''new cumulative point: '' @ fmt_nat (unat new_cumulative_point)
                              @ '' exceeds rowset size: '' @ fmt_nat (length (rowsets m))), m)
            else (OK, m\<lparr>cumulative_point := new_cumulative_point\<rparr>)))"

definition nonpk_apply_compaction_log ::
  "config \<Rightarrow> op_compaction \<Rightarrow> tablet_metadata \<Rightarrow> status \<times> tablet_metadata" where
  "nonpk_apply_compaction_log cfg op m =
     (case input_rowsets op of
        [] \<Rightarrow> (OK, m)
      | input_id # ids \<Rightarrow>
          (let first_input_pos = find_if 0 input_id (rowsets m) in
           if first_input_pos = length (rowsets m) then
             (InternalError (''input rowset '' @ fmt_nat (unat input_id) @ '' not found''), m)
           else
             (case check_adjacent (rowsets m) first_input_pos ids of
                Inl st \<Rightarrow> (st, m)
              | Inr pre_input_pos \<Rightarrow>
                  set_new_cumulative_point cfg op (of_nat first_input_pos)
                    (splice op first_input_pos (pre_input_pos + 1) m))))"

subsection \<open>Schema change: the rowset loop shared by both appliers\<close>

definition add_schema_change_rowset :: "tablet_metadata \<Rightarrow> rowset_metadata \<Rightarrow> tablet_metadata" where
  "add_schema_change_rowset m r =
     m\<lparr>rowsets := rowsets m @ [r],
       next_rowset_id := rowset_id r + of_nat (max 1 (segments_size r))\<rparr>"

definition nonpk_apply_schema_change_log ::
  "op_schema_change \<Rightarrow> tablet_metadata \<Rightarrow> status \<times> tablet_metadata" where
  "nonpk_apply_schema_change_log op m = (OK, foldl add_schema_change_rowset m (sc_rowsets op))"

subsection \<open>NonPrimaryKeyTxnLogApplier: replication\<close>

definition set_source_schema :: "op_replication \<Rightarrow> tablet_metadata \<Rightarrow> tablet_metadata" where
  "set_source_schema op m =
     (case rep_source_schema op of None \<Rightarrow> m | Some s \<Rightarrow> m\<lparr>source_schema := Some s\<rparr>)"

definition nonpk_apply_replication_log ::
  "int \<Rightarrow> op_replication \<Rightarrow> tablet_metadata \<Rightarrow> status \<times> tablet_metadata" where
  "nonpk_apply_replication_log new_version op m =
     (if txn_state (txn_meta op) \<noteq> TXN_REPLICATED then
        (Corruption (''Invalid txn meta state: '' @ ReplicationTxnStatePB_Name (txn_state (txn_meta op))), m)
      else if snapshot_version (txn_meta op) \<noteq> new_version then
        (Corruption ''mismatched snapshot version and new version'', m)
      else if incremental_snapshot (txn_meta op) then
        (case nonpk_apply_write_logs (op_writes op) m of
           (OK, m1) \<Rightarrow> (OK, set_source_schema op m1)
         | (st, m1) \<Rightarrow> (st, m1))
      else
        (let old_rowsets = rowsets m in
         case nonpk_apply_write_logs (op_writes op) (m\<lparr>rowsets := []\<rparr>) of
           (OK, m1) \<Rightarrow>
             (OK, set_source_schema op (m1\<lparr>cumulative_point := 0, compaction_inputs := old_rowsets\<rparr>))
         | (st, m1) \<Rightarrow> (st, m1)))"

subsection \<open>Sequencing of fallible steps\<close>

text \<open>\<^verbatim>\<open>RETURN_IF_ERROR(step)\<close> followed by the rest of the function.\<close>

definition then_do :: "status \<times> 's \<Rightarrow> ('s \<Rightarrow> status \<times> 's) \<Rightarrow> status \<times> 's" where
  "then_do r f = (case r of (OK, s) \<Rightarrow> f s | (st, s) \<Rightarrow> (st, s))"

subsection \<open>Collaborators\<close>

text \<open>
  The update manager, the primary index cache, the metadata store, the recover routine,
  the delvec loader and the finalisation of the meta file builder live outside this
  file. They are parameters of the model: \<open>'w\<close> is whatever state they keep. A
  collaborator that is handed the metadata pointer or the builder may write through it,
  so it returns both.
\<close>

datatype recover_flag = RecoverFlag_OK | RECOVER | RECOVER_WITH_PUBLISH

datatype delvector = DelVector int string

record meta_file_builder =
  recover_flag :: recover_flag
  appended_delvecs :: "(delvector \<times> u32) list"

type_synonym entry = nat

type_synonym 'w shared = "tablet_metadata \<times> meta_file_builder \<times> 'w"

record 'w collaborators =
  put_metadata :: "tablet_metadata \<Rightarrow> 'w \<Rightarrow> status \<times> 'w"
  set_enable_persistent_index :: "int \<Rightarrow> bool \<Rightarrow> 'w \<Rightarrow> 'w"
  try_remove_by_key :: "int \<Rightarrow> 'w \<Rightarrow> 'w"
  lock_shard_pk_index_shard :: "int \<Rightarrow> 'w \<Rightarrow> 'w"
  unlock_shard_pk_index_shard :: "int \<Rightarrow> 'w \<Rightarrow> 'w"
  prepare_primary_index :: "int \<Rightarrow> int \<Rightarrow> 'w shared \<Rightarrow> (status + entry) \<times> 'w shared"
  publish_primary_key_tablet :: "op_write \<Rightarrow> int \<Rightarrow> entry \<Rightarrow> int \<Rightarrow> 'w shared \<Rightarrow> status \<times> 'w shared"
  publish_primary_compaction :: "op_compaction \<Rightarrow> int \<Rightarrow> entry \<Rightarrow> int \<Rightarrow> 'w shared \<Rightarrow> status \<times> 'w shared"
  release_primary_index_cache :: "entry option \<Rightarrow> 'w \<Rightarrow> 'w"
  unload_primary_index :: "int \<Rightarrow> 'w \<Rightarrow> 'w"
  recover :: "'w shared \<Rightarrow> status \<times> 'w shared"
  delvec_load :: "int \<Rightarrow> string \<Rightarrow> status"
  index_commit :: "entry \<Rightarrow> 'w shared \<Rightarrow> status \<times> 'w shared"
  update_object_size :: "entry \<Rightarrow> 'w \<Rightarrow> 'w"
  finalize :: "int \<Rightarrow> 'w shared \<Rightarrow> status \<times> 'w shared"

subsection \<open>apply\_alter\_meta\_log\<close>

definition alter_meta_step ::
  "'w collaborators \<Rightarrow> tablet_metadata \<times> 'w \<Rightarrow> metadata_update_info \<Rightarrow> tablet_metadata \<times> 'w" where
  "alter_meta_step c mw alter_meta =
     (let (m, w) = mw;
          (m1, w1) =
            (case upd_enable_persistent_index alter_meta of
               None \<Rightarrow> (m, w)
             | Some b \<Rightarrow>
                 (m\<lparr>enable_persistent_index := b\<rparr>,
                  try_remove_by_key c (tablet_id m) (set_enable_persistent_index c (tablet_id m) b w)))
      in case upd_tablet_schema alter_meta of
           None \<Rightarrow> (m1, w1)
         | Some sch \<Rightarrow> (m1\<lparr>schema := sch\<rparr>, w1))"

definition apply_alter_meta_log ::
  "'w collaborators \<Rightarrow> op_alter_metadata \<Rightarrow> tablet_metadata \<times> 'w \<Rightarrow> status \<times> tablet_metadata \<times> 'w" where
  "apply_alter_meta_log c op mw = (OK, foldl (alter_meta_step c) mw (metadata_update_infos op))"

subsection \<open>NonPrimaryKeyTxnLogApplier: construction, apply, finish\<close>

record 'w nonpk_applier =
  np_tablet :: int
  np_metadata :: tablet_metadata
  np_new_version :: int
  np_world :: 'w

definition NonPrimaryKeyTxnLogApplier :: "int \<Rightarrow> tablet_metadata \<Rightarrow> int \<Rightarrow> 'w \<Rightarrow> 'w nonpk_applier" where
  "NonPrimaryKeyTxnLogApplier tablet metadata new_version w =
     \<lparr>np_tablet = tablet, np_metadata = metadata, np_new_version = new_version, np_world = w\<rparr>"

text \<open>A member function that works on \<^verbatim>\<open>_metadata\<close> alone, run on the applier.\<close>

definition on_metadata ::
  "(tablet_metadata \<Rightarrow> status \<times> tablet_metadata) \<Rightarrow> 'w nonpk_applier \<Rightarrow> status \<times> 'w nonpk_applier" where
  "on_metadata f s = (case f (np_metadata s) of (st, m) \<Rightarrow> (st, s\<lparr>np_metadata := m\<rparr>))"

definition nonpk_alter_meta ::
  "'w collaborators \<Rightarrow> op_alter_metadata \<Rightarrow> 'w nonpk_applier \<Rightarrow> status \<times> 'w nonpk_applier" where
  "nonpk_alter_meta c op s =
     (case apply_alter_meta_log c op (np_metadata s, np_world s) of
        (st, m, w) \<Rightarrow> (st, s\<lparr>np_metadata := m, np_world := w\<rparr>))"

definition nonpk_apply ::
  "config \<Rightarrow> 'w collaborators \<Rightarrow> txn_log \<Rightarrow> 'w nonpk_applier \<Rightarrow> status \<times> 'w nonpk_applier" where
  "nonpk_apply cfg c log s =
     then_do (case log_op_write log of
                None \<Rightarrow> (OK, s)
              | Some op \<Rightarrow> on_metadata (nonpk_apply_write_log op) s)
     (\<lambda>s. then_do (case log_op_compaction log of
                None \<Rightarrow> (OK, s)
              | Some op \<Rightarrow> on_metadata (nonpk_apply_compaction_log cfg op) s)
     (\<lambda>s. then_do (case log_op_schema_change log of
                None \<Rightarrow> (OK, s)
              | Some op \<Rightarrow> on_metadata (nonpk_apply_schema_change_log op) s)
     (\<lambda>s. then_do (case log_op_replication log of
                None \<Rightarrow> (OK, s)
              | Some op \<Rightarrow> on_metadata (nonpk_apply_replication_log (np_new_version s) op) s)
     (\<lambda>s. case log_op_alter_metadata log of
             Some op \<Rightarrow> nonpk_alter_meta c op s
           | None \<Rightarrow> (OK, s)))))"

definition nonpk_finish :: "'w collaborators \<Rightarrow> 'w nonpk_applier \<Rightarrow> status \<times> 'w nonpk_applier" where
  "nonpk_finish c s =
     (let s1 = s\<lparr>np_metadata := (np_metadata s)\<lparr>version := np_new_version s\<rparr>\<rparr>
      in case put_metadata c (np_metadata s1) (np_world s1) of
           (st, w) \<Rightarrow> (st, s1\<lparr>np_world := w\<rparr>))"

subsection \<open>PrimaryKeyTxnLogApplier: state and construction\<close>

text \<open>
  \<^verbatim>\<open>_index_entry\<close> is \<open>None\<close> for the null pointer. \<^verbatim>\<open>_guard\<close> is owned by the
  index cache and is part of the collaborators' state. Of the meta file builder the
  applier reads and writes the recover flag and appends delvecs; a builder fresh from
  its constructor has the flag \<^verbatim>\<open>RecoverFlag::OK\<close> and no delvec.
\<close>

record 'w pk_applier =
  pk_tablet :: int
  pk_metadata :: tablet_metadata
  pk_base_version :: int
  pk_new_version :: int
  pk_max_txn_id :: int
  pk_builder :: meta_file_builder
  pk_index_entry :: "entry option"
  pk_has_finalized :: bool
  pk_world :: 'w

definition PrimaryKeyTxnLogApplier :: "int \<Rightarrow> tablet_metadata \<Rightarrow> int \<Rightarrow> 'w \<Rightarrow> 'w pk_applier" where
  "PrimaryKeyTxnLogApplier tablet metadata new_version w =
     \<lparr>pk_tablet = tablet,
      pk_metadata = metadata\<lparr>version := new_version\<rparr>,
      pk_base_version = version metadata,
      pk_new_version = new_version,
      pk_max_txn_id = 0,
      pk_builder = \<lparr>recover_flag = RecoverFlag_OK, appended_delvecs = []\<rparr>,
      pk_index_entry = None,
      pk_has_finalized = False,
      pk_world = w\<rparr>"

text \<open>A collaborator call that is handed \<^verbatim>\<open>_metadata\<close> and \<^verbatim>\<open>&_builder\<close>.\<close>

definition call :: "('w shared \<Rightarrow> 'r \<times> 'w shared) \<Rightarrow> 'w pk_applier \<Rightarrow> 'r \<times> 'w pk_applier" where
  "call f s =
     (case f (pk_metadata s, pk_builder s, pk_world s) of
        (r, m, b, w) \<Rightarrow> (r, s\<lparr>pk_metadata := m, pk_builder := b, pk_world := w\<rparr>))"

text \<open>A collaborator call that touches the collaborators' own state only.\<close>

definition effect :: "('w \<Rightarrow> 'w) \<Rightarrow> 'w pk_applier \<Rightarrow> 'w pk_applier" where
  "effect f s = s\<lparr>pk_world := f (pk_world s)\<rparr>"

definition set_recover_flag :: "recover_flag \<Rightarrow> 'w pk_applier \<Rightarrow> 'w pk_applier" where
  "set_recover_flag f s = s\<lparr>pk_builder := (pk_builder s)\<lparr>recover_flag := f\<rparr>\<rparr>"

subsection \<open>PrimaryKeyTxnLogApplier: write and compaction\<close>

text \<open>
  \<^verbatim>\<open>if (_index_entry == nullptr) ASSIGN_OR_RETURN(_index_entry, prepare_primary_index(...))\<close>:
  the entry to publish with, or the error to return.
\<close>

definition ensure_index_entry :: "'w collaborators \<Rightarrow> 'w pk_applier \<Rightarrow> (status + entry) \<times> 'w pk_applier" where
  "ensure_index_entry c s =
     (case pk_index_entry s of
        Some e \<Rightarrow> (Inr e, s)
      | None \<Rightarrow>
          (case call (prepare_primary_index c (pk_base_version s) (pk_new_version s)) s of
             (Inl st, s') \<Rightarrow> (Inl st, s')
           | (Inr e, s') \<Rightarrow> (Inr e, s'\<lparr>pk_index_entry := Some e\<rparr>)))"

definition rowset_of :: "op_write \<Rightarrow> rowset_metadata" where
  "rowset_of op = (case rowset op of None \<Rightarrow> default_rowset | Some r \<Rightarrow> r)"

text \<open>The \<^verbatim>\<open>DeferOp\<close> unlocks the shard on every way out.\<close>

definition pk_apply_write_log ::
  "'w collaborators \<Rightarrow> op_write \<Rightarrow> int \<Rightarrow> 'w pk_applier \<Rightarrow> status \<times> 'w pk_applier" where
  "pk_apply_write_log c op txn s =
     (let s1 = effect (lock_shard_pk_index_shard c (pk_tablet s)) s;
          (st, s') =
            (case ensure_index_entry c s1 of
               (Inl e, s2) \<Rightarrow> (e, s2)
             | (Inr index_entry, s2) \<Rightarrow>
                 if length (dels op) = 0 \<and> num_rows (rowset_of op) = 0
                    \<and> \<not> has_delete_predicate (rowset_of op)
                 then (OK, s2)
                 else call (publish_primary_key_tablet c op txn index_entry (pk_base_version s2)) s2)
      in (st, effect (unlock_shard_pk_index_shard c (pk_tablet s)) s'))"

definition pk_apply_compaction_log ::
  "'w collaborators \<Rightarrow> op_compaction \<Rightarrow> int \<Rightarrow> 'w pk_applier \<Rightarrow> status \<times> 'w pk_applier" where
  "pk_apply_compaction_log c op txn s =
     (let s1 = effect (lock_shard_pk_index_shard c (pk_tablet s)) s;
          (st, s') =
            (case ensure_index_entry c s1 of
               (Inl e, s2) \<Rightarrow> (e, s2)
             | (Inr index_entry, s2) \<Rightarrow>
                 if input_rowsets op = [] then (OK, s2)
                 else call (publish_primary_compaction c op txn index_entry (pk_base_version s2)) s2)
      in (st, effect (unlock_shard_pk_index_shard c (pk_tablet s)) s'))"

subsection \<open>PrimaryKeyTxnLogApplier: check\_and\_recover\<close>

definition need_recover :: "'w pk_applier \<Rightarrow> bool" where
  "need_recover s = (recover_flag (pk_builder s) \<noteq> RecoverFlag_OK)"

definition need_re_publish :: "'w pk_applier \<Rightarrow> bool" where
  "need_re_publish s = (recover_flag (pk_builder s) = RECOVER_WITH_PUBLISH)"

text \<open>The state in which \<^verbatim>\<open>recover.recover()\<close> is called: entry released and nulled.\<close>

definition release_entry :: "'w collaborators \<Rightarrow> 'w pk_applier \<Rightarrow> 'w pk_applier" where
  "release_entry c s =
     (effect (release_primary_index_cache c (pk_index_entry s)) s)\<lparr>pk_index_entry := None\<rparr>"

definition check_and_recover ::
  "config \<Rightarrow> 'w collaborators \<Rightarrow> ('w pk_applier \<Rightarrow> status \<times> 'w pk_applier)
     \<Rightarrow> 'w pk_applier \<Rightarrow> status \<times> 'w pk_applier" where
  "check_and_recover cfg c publish_func s =
     (case publish_func s of
        (ret, s1) \<Rightarrow>
          if enable_primary_key_recover cfg \<and> need_recover s1 then
            (case call (recover c) (release_entry c s1) of
               (OK, s2) \<Rightarrow>
                 if need_re_publish s2 then publish_func (set_recover_flag RecoverFlag_OK s2)
                 else (OK, set_recover_flag RecoverFlag_OK s2)
             | (st, s2) \<Rightarrow> (st, s2))
          else (ret, s1))"

subsection \<open>PrimaryKeyTxnLogApplier: schema change\<close>

definition pk_apply_schema_change_log ::
  "'w collaborators \<Rightarrow> op_schema_change \<Rightarrow> 'w pk_applier \<Rightarrow> status \<times> 'w pk_applier" where
  "pk_apply_schema_change_log c op s =
     (let m1 = foldl add_schema_change_rowset (pk_metadata s) (sc_rowsets op);
          m2 = (case sc_delvec_meta op of None \<Rightarrow> m1 | Some d \<Rightarrow> m1\<lparr>delvec_meta := d\<rparr>);
          s2 = s\<lparr>pk_metadata := m2\<rparr>
      in if alter_version op + 1 < pk_new_version s2 then
           (let s3 = s2\<lparr>pk_base_version := alter_version op\<rparr>;
                base_meta = (pk_metadata s3)\<lparr>version := pk_base_version s3\<rparr>
            in case put_metadata c base_meta (pk_world s3) of
                 (st, w) \<Rightarrow> (st, s3\<lparr>pk_world := w\<rparr>))
         else (OK, s2))"

subsection \<open>PrimaryKeyTxnLogApplier: replication\<close>

fun pk_apply_write_logs ::
  "'w collaborators \<Rightarrow> op_write list \<Rightarrow> int \<Rightarrow> 'w pk_applier \<Rightarrow> status \<times> 'w pk_applier" where
  "pk_apply_write_logs c [] txn s = (OK, s)"
| "pk_apply_write_logs c (w # ws) txn s =
     (case pk_apply_write_log c w txn s of
        (OK, s') \<Rightarrow> pk_apply_write_logs c ws txn s'
      | (st, s') \<Rightarrow> (st, s'))"

text \<open>
  One turn of the full-snapshot loop: the pair is \<^verbatim>\<open>_metadata\<close> and the local
  \<^verbatim>\<open>new_next_rowset_id\<close>; \<^verbatim>\<open>_metadata->next_rowset_id()\<close> itself stays as it was until
  the loops are over.
\<close>

definition add_rebased_rowset ::
  "tablet_metadata \<times> u32 \<Rightarrow> op_write \<Rightarrow> tablet_metadata \<times> u32" where
  "add_rebased_rowset mn op =
     (let (m, new_next_rowset_id) = mn;
          new_rowset_id = rowset_id (rowset_of op) + next_rowset_id m;
          r = (rowset_of op)\<lparr>rowset_id := new_rowset_id\<rparr>
      in (m\<lparr>rowsets := rowsets m @ [r]\<rparr>,
          max new_next_rowset_id (new_rowset_id + of_nat (max 1 (segments_size r)))))"

fun append_delvecs ::
  "'w collaborators \<Rightarrow> int \<Rightarrow> u32 \<Rightarrow> (u32 \<times> string) list \<Rightarrow> meta_file_builder
     \<Rightarrow> status \<times> meta_file_builder" where
  "append_delvecs c new_version offset [] b = (OK, b)"
| "append_delvecs c new_version offset ((segment_id, delvec_data) # ds) b =
     (case delvec_load c new_version delvec_data of
        OK \<Rightarrow>
          append_delvecs c new_version offset ds
            (b\<lparr>appended_delvecs :=
                 appended_delvecs b @ [(DelVector new_version delvec_data, segment_id + offset)]\<rparr>)
      | st \<Rightarrow> (st, b))"

definition pk_set_source_schema :: "op_replication \<Rightarrow> 'w pk_applier \<Rightarrow> 'w pk_applier" where
  "pk_set_source_schema op s = s\<lparr>pk_metadata := set_source_schema op (pk_metadata s)\<rparr>"

definition pk_apply_replication_log ::
  "'w collaborators \<Rightarrow> op_replication \<Rightarrow> int \<Rightarrow> 'w pk_applier \<Rightarrow> status \<times> 'w pk_applier" where
  "pk_apply_replication_log c op txn s =
     (if txn_state (txn_meta op) \<noteq> TXN_REPLICATED then
        (Corruption (''Invalid txn meta state: '' @ ReplicationTxnStatePB_Name (txn_state (txn_meta op))), s)
      else if snapshot_version (txn_meta op) \<noteq> pk_new_version s then
        (Corruption ''mismatched snapshot version and new version'', s)
      else if incremental_snapshot (txn_meta op) then
        (case pk_apply_write_logs c (op_writes op) txn s of
           (OK, s1) \<Rightarrow> (OK, pk_set_source_schema op s1)
         | (st, s1) \<Rightarrow> (st, s1))
      else
        (let old_rowsets = rowsets (pk_metadata s);
             m1 = (pk_metadata s)\<lparr>rowsets := [], delvec_meta := []\<rparr>;
             (m2, new_next_rowset_id) = foldl add_rebased_rowset (m1, next_rowset_id m1) (op_writes op)
         in case append_delvecs c (pk_new_version s) (next_rowset_id m2) (delvecs op) (pk_builder s) of
              (OK, b) \<Rightarrow>
                (let m3 = m2\<lparr>next_rowset_id := new_next_rowset_id, cumulative_point := 0,
                             compaction_inputs := old_rowsets\<rparr>;
                     s1 = effect (unload_primary_index c (pk_tablet s))
                            (s\<lparr>pk_metadata := m3, pk_builder := b\<rparr>)
                 in (OK, pk_set_source_schema op s1))
            | (st, b) \<Rightarrow> (st, s\<lparr>pk_metadata := m2, pk_builder := b\<rparr>)))"

subsection \<open>PrimaryKeyTxnLogApplier: apply and finish\<close>

definition pk_alter_meta ::
  "'w collaborators \<Rightarrow> op_alter_metadata \<Rightarrow> 'w pk_applier \<Rightarrow> status \<times> 'w pk_applier" where
  "pk_alter_meta c op s =
     (case apply_alter_meta_log c op (pk_metadata s, pk_world s) of
        (st, m, w) \<Rightarrow> (st, s\<lparr>pk_metadata := m, pk_world := w\<rparr>))"

definition pk_apply ::
  "config \<Rightarrow> 'w collaborators \<Rightarrow> txn_log \<Rightarrow> 'w pk_applier \<Rightarrow> status \<times> 'w pk_applier" where
  "pk_apply cfg c log s0 =
     (let s = s0\<lparr>pk_max_txn_id := max (pk_max_txn_id s0) (txn_id log)\<rparr> in
      then_do (case log_op_write log of
                 None \<Rightarrow> (OK, s)
               | Some op \<Rightarrow> check_and_recover cfg c (pk_apply_write_log c op (txn_id log)) s)
      (\<lambda>s. then_do (case log_op_compaction log of
                 None \<Rightarrow> (OK, s)
               | Some op \<Rightarrow> check_and_recover cfg c (pk_apply_compaction_log c op (txn_id log)) s)
      (\<lambda>s. then_do (case log_op_schema_change log of
                 None \<Rightarrow> (OK, s)
               | Some op \<Rightarrow> pk_apply_schema_change_log c op s)
      (\<lambda>s. case log_op_alter_metadata log of
              Some op \<Rightarrow> pk_alter_meta c op s
            | None \<Rightarrow>
                then_do (case log_op_replication log of
                           None \<Rightarrow> (OK, s)
                         | Some op \<Rightarrow> pk_apply_replication_log c op (txn_id log) s)
                (\<lambda>s. (OK, s))))))"

definition pk_finish :: "'w collaborators \<Rightarrow> 'w pk_applier \<Rightarrow> status \<times> 'w pk_applier" where
  "pk_finish c s =
     then_do (case pk_index_entry s of
                None \<Rightarrow> (OK, s)
              | Some e \<Rightarrow>
                  then_do (call (index_commit c e) s) (\<lambda>s. (OK, effect (update_object_size c e) s)))
     (\<lambda>s. then_do (call (finalize c (pk_max_txn_id s)) s)
     (\<lambda>s. (OK, s\<lparr>pk_has_finalized := True\<rparr>)))"

subsection \<open>new\_txn\_log\_applier\<close>

datatype 'w txn_log_applier = PrimaryKey "'w pk_applier" | NonPrimaryKey "'w nonpk_applier"

definition new_txn_log_applier :: "int \<Rightarrow> tablet_metadata \<Rightarrow> int \<Rightarrow> 'w \<Rightarrow> 'w txn_log_applier" where
  "new_txn_log_applier tablet metadata new_version w =
     (if keys_type (schema metadata) = PRIMARY_KEYS
      then PrimaryKey (PrimaryKeyTxnLogApplier tablet metadata new_version w)
      else NonPrimaryKey (NonPrimaryKeyTxnLogApplier tablet metadata new_version w))"

section \<open>Fixtures\<close>

definition example_rowset :: "u32 \<Rightarrow> nat \<Rightarrow> int \<Rightarrow> rowset_metadata" where
  "example_rowset i k n =
     \<lparr>rowset_id = i, segments = replicate k ''seg'', num_rows = n, has_delete_predicate = False\<rparr>"

definition example_metadata :: "rowset_metadata list \<Rightarrow> u32 \<Rightarrow> u32 \<Rightarrow> tablet_metadata" where
  "example_metadata rss nxt cp =
     \<lparr>tablet_id = 7, version = 1, schema = \<lparr>keys_type = DUP_KEYS, columns = []\<rparr>,
      enable_persistent_index = False, rowsets = rss, next_rowset_id = nxt, cumulative_point = cp,
      delvec_meta = [], compaction_inputs = [], source_schema = None\<rparr>"

definition example_config :: config where
  "example_config =
     \<lparr>enable_primary_key_recover = True, enable_size_tiered_compaction_strategy = False\<rparr>"

text \<open>The rowsets \<open>[A, B, C, D]\<close> of the adjacency example, with ids 1 to 4.\<close>

definition rowsets_ABCD :: "rowset_metadata list" where
  "rowsets_ABCD =
     [example_rowset 1 1 10, example_rowset 2 1 10, example_rowset 3 1 10, example_rowset 4 1 10]"

section \<open>Notions the claims are stated with\<close>

text \<open>
  The slice of \<^verbatim>\<open>metadata.rowsets\<close> a compaction consumes: as many rowsets as the op has
  inputs, from the position of the first input.
\<close>

definition moved_inputs :: "op_compaction \<Rightarrow> tablet_metadata \<Rightarrow> rowset_metadata list" where
  "moved_inputs op m =
     take (length (input_rowsets op))
       (drop (find_if 0 (hd (input_rowsets op)) (rowsets m)) (rowsets m))"

text \<open>The output rowset as the splice stores it: under the id \<^verbatim>\<open>next_rowset_id\<close>.\<close>

definition placed_output :: "op_compaction \<Rightarrow> tablet_metadata \<Rightarrow> rowset_metadata list" where
  "placed_output op m =
     (case output_rowset op of
        None \<Rightarrow> []
      | Some r \<Rightarrow> if num_rows r > 0 then [r\<lparr>rowset_id := next_rowset_id m\<rparr>] else [])"

definition advanced_next_rowset_id :: "op_compaction \<Rightarrow> tablet_metadata \<Rightarrow> u32" where
  "advanced_next_rowset_id op m =
     (case output_rowset op of
        None \<Rightarrow> next_rowset_id m
      | Some r \<Rightarrow> if num_rows r > 0 then next_rowset_id m + of_nat (segments_size r)
                  else next_rowset_id m)"

text \<open>
  The new cumulative point in the words of the specification (section 4.3.2, step 5), on
  natural numbers: \<open>first_idx\<close> if \<open>first_idx \<ge> old_cp\<close>, else \<open>old_cp - k\<close> if
  \<open>old_cp \<ge> k\<close>, else 0; plus 1 for an output rowset with rows.
\<close>

definition spec_new_cumulative_point :: "nat \<Rightarrow> nat \<Rightarrow> nat \<Rightarrow> bool \<Rightarrow> nat" where
  "spec_new_cumulative_point first_idx old_cp k out =
     (if first_idx \<ge> old_cp then first_idx else if old_cp \<ge> k then old_cp - k else 0)
     + (if out then 1 else 0)"

text \<open>
  Inputs \<open>[B, C]\<close> with an output of two segments (the splice example of the
  specification), and input \<open>[A]\<close> without output and with an output of one segment.
\<close>

definition op_BC_to_X :: op_compaction where
  "op_BC_to_X = \<lparr>input_rowsets = [2, 3], output_rowset = Some (example_rowset 0 2 10)\<rparr>"

definition op_A_only :: op_compaction where
  "op_A_only = \<lparr>input_rowsets = [1], output_rowset = None\<rparr>"

definition op_A_to_X :: op_compaction where
  "op_A_to_X = \<lparr>input_rowsets = [1], output_rowset = Some (example_rowset 0 1 10)\<rparr>"

text \<open>
  Invariant I2 of the specification: a rowset with \<open>k\<close> segments takes the ids
  \<open>[id, id + max(1, k))\<close>; the ranges of the rowsets in \<open>rowsets\<close> and
  \<open>compaction_inputs\<close> are pairwise disjoint and all lie below \<open>next_rowset_id\<close>.
\<close>

definition id_range_end :: "rowset_metadata \<Rightarrow> nat" where
  "id_range_end r = unat (rowset_id r) + max 1 (segments_size r)"

definition ranges_disjoint :: "rowset_metadata \<Rightarrow> rowset_metadata \<Rightarrow> bool" where
  "ranges_disjoint r s =
     (id_range_end r \<le> unat (rowset_id s) \<or> id_range_end s \<le> unat (rowset_id r))"

fun pairwise_disjoint :: "rowset_metadata list \<Rightarrow> bool" where
  "pairwise_disjoint [] = True"
| "pairwise_disjoint (r # rs) = (list_all (ranges_disjoint r) rs \<and> pairwise_disjoint rs)"

definition used_rowsets :: "tablet_metadata \<Rightarrow> rowset_metadata list" where
  "used_rowsets m = rowsets m @ compaction_inputs m"

definition rowset_ids_ok :: "tablet_metadata \<Rightarrow> bool" where
  "rowset_ids_ok m =
     (pairwise_disjoint (used_rowsets m)
      \<and> list_all (\<lambda>r. id_range_end r \<le> unat (next_rowset_id m)) (used_rowsets m))"

text \<open>A log without any op field, to be extended by the op under study.\<close>

definition empty_log :: "int \<Rightarrow> txn_log" where
  "empty_log txn =
     \<lparr>txn_id = txn, log_op_write = None, log_op_compaction = None, log_op_schema_change = None,
      log_op_alter_metadata = None, log_op_replication = None\<rparr>"

text \<open>
  A compaction of \<open>[A]\<close> into an output with 10 rows and no segment, a write of one
  segment, and a non-primary-key applier on the single rowset \<open>A\<close> (id 1, next id 2).
\<close>

definition op_A_to_empty_X :: op_compaction where
  "op_A_to_empty_X = \<lparr>input_rowsets = [1], output_rowset = Some (example_rowset 0 0 10)\<rparr>"

definition write_one_segment :: op_write where
  "write_one_segment = \<lparr>rowset = Some (example_rowset 0 1 10), dels = []\<rparr>"

definition nonpk_A :: "'w \<Rightarrow> 'w nonpk_applier" where
  "nonpk_A w = NonPrimaryKeyTxnLogApplier 7 (example_metadata [example_rowset 1 1 10] 2 0) 2 w"

text \<open>
  The end of a rowset's id range in the arithmetic of the code (unsigned 32 bit), and the
  maximum of a previous \<open>next_rowset_id\<close> and the range end of every rowset of a list:
  the \<open>next_rowset_id\<close> the specification describes after a schema change (section
  4.2.2) and after a full-snapshot replication (section 4.2.4).
\<close>

definition rowset_id_end :: "rowset_metadata \<Rightarrow> u32" where
  "rowset_id_end r = rowset_id r + of_nat (max 1 (segments_size r))"

definition max_rowset_id_end :: "u32 \<Rightarrow> rowset_metadata list \<Rightarrow> u32" where
  "max_rowset_id_end n rs = foldl (\<lambda>n r. max n (rowset_id_end r)) n rs"

text \<open>
  Collaborators for the examples. Their state is the list of the calls made so far;
  \<open>publish_status\<close> and \<open>publish_flag\<close> are what a publish returns and the recover
  flag it leaves in the builder, \<open>recover_status\<close> is what the recover routine returns.
\<close>

definition logged :: "string \<Rightarrow> string list \<Rightarrow> string list" where
  "logged name w = w @ [name]"

definition example_collaborators ::
  "status \<Rightarrow> recover_flag \<Rightarrow> status \<Rightarrow> (string list) collaborators" where
  "example_collaborators publish_status publish_flag recover_status =
     \<lparr>put_metadata = (\<lambda>m w. (OK, logged ''put_metadata'' w)),
      set_enable_persistent_index = (\<lambda>t b w. logged ''set_enable_persistent_index'' w),
      try_remove_by_key = (\<lambda>t w. logged ''try_remove_by_key'' w),
      lock_shard_pk_index_shard = (\<lambda>t w. logged ''lock'' w),
      unlock_shard_pk_index_shard = (\<lambda>t w. logged ''unlock'' w),
      prepare_primary_index = (\<lambda>bv nv (m, b, w). (Inr 1, m, b, logged ''prepare_primary_index'' w)),
      publish_primary_key_tablet =
        (\<lambda>op txn e bv (m, b, w).
           (publish_status, m, b\<lparr>recover_flag := publish_flag\<rparr>, logged ''publish_primary_key_tablet'' w)),
      publish_primary_compaction =
        (\<lambda>op txn e bv (m, b, w).
           (publish_status, m, b\<lparr>recover_flag := publish_flag\<rparr>, logged ''publish_primary_compaction'' w)),
      release_primary_index_cache = (\<lambda>e w. logged ''release_primary_index_cache'' w),
      unload_primary_index = (\<lambda>t w. logged ''unload_primary_index'' w),
      recover = (\<lambda>(m, b, w). (recover_status, m, b, logged ''recover'' w)),
      delvec_load = (\<lambda>v d. OK),
      index_commit = (\<lambda>e (m, b, w). (OK, m, b, logged ''commit'' w)),
      update_object_size = (\<lambda>e w. logged ''update_object_size'' w),
      finalize = (\<lambda>t (m, b, w). (OK, m, b, logged ''finalize'' w))\<rparr>"

text \<open>Schema changes carrying one rowset of id 1, and rowsets of ids 1 and 5.\<close>

definition op_schema_change_low_id :: op_schema_change where
  "op_schema_change_low_id =
     \<lparr>sc_rowsets = [example_rowset 1 1 10], sc_delvec_meta = None, alter_version = 1,
      linked_segment = False\<rparr>"

definition op_schema_change_rising_ids :: op_schema_change where
  "op_schema_change_rising_ids =
     \<lparr>sc_rowsets = [example_rowset 1 1 10, example_rowset 5 2 10], sc_delvec_meta = None,
      alter_version = 1, linked_segment = False\<rparr>"

text \<open>
  What the version claim needs of the collaborators: a collaborator that is handed the
  metadata gives it back with the version it had.
\<close>

definition keeps_version :: "('w shared \<Rightarrow> 'r \<times> 'w shared) \<Rightarrow> bool" where
  "keeps_version f = (\<forall>x. version (fst (snd (f x))) = version (fst x))"

definition collaborators_keep_version :: "'w collaborators \<Rightarrow> bool" where
  "collaborators_keep_version c =
     ((\<forall>bv nv. keeps_version (prepare_primary_index c bv nv))
      \<and> (\<forall>op txn e bv. keeps_version (publish_primary_key_tablet c op txn e bv))
      \<and> (\<forall>op txn e bv. keeps_version (publish_primary_compaction c op txn e bv))
      \<and> keeps_version (recover c)
      \<and> (\<forall>e. keeps_version (index_commit c e))
      \<and> (\<forall>t. keeps_version (finalize c t)))"

text \<open>
  The rowset of an embedded write as a full-snapshot replication stores it: the id moved
  up by \<open>offset\<close>, in unsigned 32-bit arithmetic.
\<close>

definition rebased :: "u32 \<Rightarrow> op_write \<Rightarrow> rowset_metadata" where
  "rebased offset op = (rowset_of op)\<lparr>rowset_id := rowset_id (rowset_of op) + offset\<rparr>"

text \<open>
  The in-memory version and \<^verbatim>\<open>_new_version\<close> of an applier, and the steps that leave
  both as they are.
\<close>

definition pk_versions :: "'w pk_applier \<Rightarrow> int \<times> int" where
  "pk_versions s = (version (pk_metadata s), pk_new_version s)"

definition pk_keeps :: "('w pk_applier \<Rightarrow> 'r \<times> 'w pk_applier) \<Rightarrow> bool" where
  "pk_keeps f = (\<forall>s. pk_versions (snd (f s)) = pk_versions s)"

definition np_versions :: "'w nonpk_applier \<Rightarrow> int \<times> int" where
  "np_versions s = (version (np_metadata s), np_new_version s)"

definition np_keeps :: "('w nonpk_applier \<Rightarrow> status \<times> 'w nonpk_applier) \<Rightarrow> bool" where
  "np_keeps f = (\<forall>s. np_versions (snd (f s)) = np_versions s)"

text \<open>
  A primary-key applier for version 2 on the single rowset \<open>A\<close>, and collaborators whose
  publish fails with a duplicate key and leaves the given recover flag.
\<close>

definition pk_A :: "'w \<Rightarrow> 'w pk_applier" where
  "pk_A w = PrimaryKeyTxnLogApplier 7 (example_metadata [example_rowset 1 1 10] 2 0) 2 w"

definition failing_publish :: "recover_flag \<Rightarrow> status \<Rightarrow> (string list) collaborators" where
  "failing_publish flag recover_status =
     example_collaborators (IOError ''duplicate key'') flag recover_status"

text \<open>
  An incremental-snapshot replication op for version 2, a configuration with recover
  switched off, and a recover routine that would show if it ran.
\<close>

definition incremental_replication :: "op_write list \<Rightarrow> op_replication" where
  "incremental_replication ws =
     \<lparr>txn_meta = \<lparr>txn_state = TXN_REPLICATED, snapshot_version = 2, incremental_snapshot = True,
                   meta_txn_id = 1\<rparr>,
      op_writes = ws, delvecs = [], rep_source_schema = None\<rparr>"



text \<open>
  A full-snapshot replication op for version \<open>v\<close>, a write of one segment whose rowset
  carries the id \<open>i\<close>, and the full-replication scenario of the specification: a
  primary-key applier for version 10 with next id 20, replicated rowsets of ids 0, 1, 5
  and one delvec for segment 0.
\<close>

definition full_replication :: "int \<Rightarrow> op_write list \<Rightarrow> (u32 \<times> string) list \<Rightarrow> op_replication" where
  "full_replication v ws ds =
     \<lparr>txn_meta = \<lparr>txn_state = TXN_REPLICATED, snapshot_version = v, incremental_snapshot = False,
                   meta_txn_id = 1\<rparr>,
      op_writes = ws, delvecs = ds, rep_source_schema = None\<rparr>"

definition write_with_id :: "u32 \<Rightarrow> op_write" where
  "write_with_id i = \<lparr>rowset = Some (example_rowset i 1 10), dels = []\<rparr>"

definition pk_S3 :: "(string list) pk_applier" where
  "pk_S3 = PrimaryKeyTxnLogApplier 7 (example_metadata [example_rowset 1 1 10] 20 3) 10 []"

definition replication_S3 :: op_replication where
  "replication_S3 =
     full_replication 10 [write_with_id 0, write_with_id 1, write_with_id 5] [(0, ''delvec'')]"

text \<open>
  The order of the specification (sections 3 and 5): the op fields of a log are steps
  applied in the order write, compaction, schema change, metadata alteration,
  replication; the first step that fails ends the apply. A step for an op field the log
  does not carry does nothing.
\<close>

datatype op_kind = Write | Compaction | SchemaChange | AlterMetadata | Replication

definition spec_order :: "op_kind list" where
  "spec_order = [Write, Compaction, SchemaChange, AlterMetadata, Replication]"

fun run_steps :: "('s \<Rightarrow> status \<times> 's) list \<Rightarrow> 's \<Rightarrow> status \<times> 's" where
  "run_steps [] s = (OK, s)"
| "run_steps (f # fs) s = (case f s of (OK, s') \<Rightarrow> run_steps fs s' | (st, s') \<Rightarrow> (st, s'))"

declare run_steps.simps(2) [simp del]

text \<open>What each applier does for one op field, as its \<open>apply\<close> calls it.\<close>

fun nonpk_step ::
  "config \<Rightarrow> 'w collaborators \<Rightarrow> txn_log \<Rightarrow> op_kind \<Rightarrow> 'w nonpk_applier \<Rightarrow> status \<times> 'w nonpk_applier" where
  "nonpk_step cfg c log Write s =
     (case log_op_write log of None \<Rightarrow> (OK, s)
      | Some op \<Rightarrow> on_metadata (nonpk_apply_write_log op) s)"
| "nonpk_step cfg c log Compaction s =
     (case log_op_compaction log of None \<Rightarrow> (OK, s)
      | Some op \<Rightarrow> on_metadata (nonpk_apply_compaction_log cfg op) s)"
| "nonpk_step cfg c log SchemaChange s =
     (case log_op_schema_change log of None \<Rightarrow> (OK, s)
      | Some op \<Rightarrow> on_metadata (nonpk_apply_schema_change_log op) s)"
| "nonpk_step cfg c log AlterMetadata s =
     (case log_op_alter_metadata log of None \<Rightarrow> (OK, s)
      | Some op \<Rightarrow> nonpk_alter_meta c op s)"
| "nonpk_step cfg c log Replication s =
     (case log_op_replication log of None \<Rightarrow> (OK, s)
      | Some op \<Rightarrow> on_metadata (nonpk_apply_replication_log (np_new_version s) op) s)"

fun pk_step ::
  "config \<Rightarrow> 'w collaborators \<Rightarrow> txn_log \<Rightarrow> op_kind \<Rightarrow> 'w pk_applier \<Rightarrow> status \<times> 'w pk_applier" where
  "pk_step cfg c log Write s =
     (case log_op_write log of None \<Rightarrow> (OK, s)
      | Some op \<Rightarrow> check_and_recover cfg c (pk_apply_write_log c op (txn_id log)) s)"
| "pk_step cfg c log Compaction s =
     (case log_op_compaction log of None \<Rightarrow> (OK, s)
      | Some op \<Rightarrow> check_and_recover cfg c (pk_apply_compaction_log c op (txn_id log)) s)"
| "pk_step cfg c log SchemaChange s =
     (case log_op_schema_change log of None \<Rightarrow> (OK, s)
      | Some op \<Rightarrow> pk_apply_schema_change_log c op s)"
| "pk_step cfg c log AlterMetadata s =
     (case log_op_alter_metadata log of None \<Rightarrow> (OK, s)
      | Some op \<Rightarrow> pk_alter_meta c op s)"
| "pk_step cfg c log Replication s =
     (case log_op_replication log of None \<Rightarrow> (OK, s)
      | Some op \<Rightarrow> pk_apply_replication_log c op (txn_id log) s)"

text \<open>\<open>apply\<close> as the specification describes it, for either applier.\<close>

definition spec_nonpk_apply ::
  "config \<Rightarrow> 'w collaborators \<Rightarrow> txn_log \<Rightarrow> 'w nonpk_applier \<Rightarrow> status \<times> 'w nonpk_applier" where
  "spec_nonpk_apply cfg c log s = run_steps (map (nonpk_step cfg c log) spec_order) s"

definition spec_pk_apply ::
  "config \<Rightarrow> 'w collaborators \<Rightarrow> txn_log \<Rightarrow> 'w pk_applier \<Rightarrow> status \<times> 'w pk_applier" where
  "spec_pk_apply cfg c log s =
     run_steps (map (pk_step cfg c log) spec_order)
       (s\<lparr>pk_max_txn_id := max (pk_max_txn_id s) (txn_id log)\<rparr>)"

text \<open>
  A metadata alteration that replaces the schema, a replication op in a state other than
  \<open>TXN_REPLICATED\<close>, and logs that carry two op fields.
\<close>

definition alter_schema_op :: op_alter_metadata where
  "alter_schema_op =
     \<lparr>metadata_update_infos =
        [\<lparr>upd_enable_persistent_index = None,
          upd_tablet_schema = Some \<lparr>keys_type = DUP_KEYS, columns = [''c1'']\<rparr>\<rparr>]\<rparr>"

definition unreplicated_replication :: op_replication where
  "unreplicated_replication =
     \<lparr>txn_meta = \<lparr>txn_state = TXN_SNAPSHOTED, snapshot_version = 2, incremental_snapshot = False,
                   meta_txn_id = 1\<rparr>,
      op_writes = [], delvecs = [], rep_source_schema = None\<rparr>"

definition log_alter_and_bad_replication :: txn_log where
  "log_alter_and_bad_replication =
     (empty_log 1)\<lparr>log_op_alter_metadata := Some alter_schema_op,
                   log_op_replication := Some unreplicated_replication\<rparr>"

definition log_alter_and_replication_S3 :: txn_log where
  "log_alter_and_replication_S3 =
     (empty_log 1)\<lparr>log_op_alter_metadata := Some alter_schema_op,
                   log_op_replication := Some replication_S3\<rparr>"

definition log_write_and_alter :: txn_log where
  "log_write_and_alter =
     (empty_log 1)\<lparr>log_op_write := Some write_one_segment,
                   log_op_alter_metadata := Some alter_schema_op\<rparr>"

definition quiet :: "(string list) collaborators" where
  "quiet = example_collaborators OK RecoverFlag_OK OK"

text \<open>
  The error of a compaction whose inputs are not a contiguous run, in the words of the
  rowset ids alone: \<open>first_position\<close> is the index of the first rowset with the id of the
  first input, \<open>matched_inputs\<close> the number of leading inputs that sit in consecutive
  slots from there, so that input number \<open>matched_inputs\<close> (counted from 0) is the first one
  that is not in the slot right after its predecessor.
\<close>

definition first_position :: "u32 \<Rightarrow> u32 list \<Rightarrow> nat" where
  "first_position x ids = length (takeWhile (\<lambda>i. i \<noteq> x) ids)"

definition matched_inputs :: "u32 list \<Rightarrow> u32 list \<Rightarrow> nat" where
  "matched_inputs inputs ids =
     length (longest_common_prefix inputs (drop (first_position (hd inputs) ids) ids))"

definition spec_input_error :: "u32 list \<Rightarrow> u32 list \<Rightarrow> status" where
  "spec_input_error inputs ids =
     (let j = matched_inputs inputs ids;
          input_id = inputs ! j
      in if input_id \<in> set (drop (first_position (hd inputs) ids + j) ids)
         then InternalError ''input rowset position not adjacent''
         else InternalError (''input rowset '' @ fmt_nat (unat input_id) @ '' not exist''))"
section \<open>Non-primary-key compaction: the adjacency check\<close>

lemma find_if_found:
  assumes "find_if 0 x rs \<noteq> length rs"
  shows "find_if 0 x rs < length rs \<and> rowset_id (rs ! find_if 0 x rs) = x"
proof -
  let ?n = "length (takeWhile (\<lambda>r. rowset_id r \<noteq> x) rs)"
  have "?n \<le> length rs" by (rule length_takeWhile_le)
  with assms have lt: "?n < length rs" by (simp add: find_if_def)
  from nth_length_takeWhile [OF lt] have "rowset_id (rs ! ?n) = x" by simp
  with lt show ?thesis by (simp add: find_if_def)
qed

lemma find_if_present:
  assumes "x \<in> rowset_id ` set rs"
  shows "find_if 0 x rs \<noteq> length rs"
proof
  assume "find_if 0 x rs = length rs"
  then have "length (takeWhile (\<lambda>r. rowset_id r \<noteq> x) rs) = length rs" by (simp add: find_if_def)
  then have "takeWhile (\<lambda>r. rowset_id r \<noteq> x) rs = rs"
    by (metis takeWhile_eq_take take_all order_refl)
  then have "\<forall>r\<in>set rs. rowset_id r \<noteq> x" by (metis set_takeWhileD)
  with assms show False by auto
qed

lemma find_if_next:
  assumes "find_if (Suc p) x rs = Suc p" and "Suc p \<noteq> length rs" and "p < length rs"
  shows "Suc p < length rs \<and> rowset_id (rs ! Suc p) = x"
proof -
  from assms have lt: "Suc p < length rs" by simp
  then have d: "drop (Suc p) rs = rs ! Suc p # drop (Suc (Suc p)) rs"
    by (simp add: Cons_nth_drop_Suc)
  from assms(1) have "takeWhile (\<lambda>r. rowset_id r \<noteq> x) (drop (Suc p) rs) = []"
    by (simp add: find_if_def)
  with d have "rowset_id (rs ! Suc p) = x" by (simp split: if_splits)
  with lt show ?thesis by simp
qed

text \<open>A passed check: the inputs sit at \<open>p + 1, p + 2, ...\<close> in their own order.\<close>

lemma check_adjacent_Inr:
  "check_adjacent rs p ids = Inr q \<Longrightarrow> p < length rs \<Longrightarrow>
     q = p + length ids \<and> q < length rs
     \<and> map rowset_id (take (length ids) (drop (Suc p) rs)) = ids"
proof (induction ids arbitrary: p)
  case Nil
  then show ?case by simp
next
  case (Cons x ids)
  from Cons.prems(1) have f: "find_if (Suc p) x rs = Suc p" and ne: "Suc p \<noteq> length rs"
    and rec: "check_adjacent rs (Suc p) ids = Inr q"
    by (auto simp: Let_def split: if_splits)
  from find_if_next [OF f ne Cons.prems(2)]
  have lt: "Suc p < length rs" and idx: "rowset_id (rs ! Suc p) = x"
    by simp_all
  from Cons.IH [OF rec lt] have q: "q = Suc p + length ids" and ql: "q < length rs"
    and m: "map rowset_id (take (length ids) (drop (Suc (Suc p)) rs)) = ids" by simp_all
  have d: "drop (Suc p) rs = rs ! Suc p # drop (Suc (Suc p)) rs"
    using lt by (simp add: Cons_nth_drop_Suc)
  show ?case using q ql m idx d by simp
qed

lemma check_adjacent_Inl:
  "check_adjacent rs p ids = Inl st \<Longrightarrow>
     st = InternalError ''input rowset position not adjacent''
     \<or> (\<exists>x\<in>set ids. st = InternalError (''input rowset '' @ fmt_nat (unat x) @ '' not exist''))"
  by (induction ids arbitrary: p) (auto simp: Let_def split: if_splits)

lemma inputs_contiguous:
  assumes "find_if 0 x rs \<noteq> length rs"
      and "check_adjacent rs (find_if 0 x rs) ids = Inr q"
  shows "x # ids = map rowset_id (take (Suc (length ids)) (drop (find_if 0 x rs) rs))"
proof -
  let ?i = "find_if 0 x rs"
  from find_if_found [OF assms(1)] have lt: "?i < length rs" and idx: "rowset_id (rs ! ?i) = x"
    by simp_all
  from check_adjacent_Inr [OF assms(2) lt]
  have m: "map rowset_id (take (length ids) (drop (Suc ?i) rs)) = ids" by simp
  have d: "drop ?i rs = rs ! ?i # drop (Suc ?i) rs"
    using lt by (simp add: Cons_nth_drop_Suc)
  show ?thesis using m idx d by simp
qed

lemma sublist_of_inputs:
  assumes "find_if 0 x rs \<noteq> length rs"
      and "check_adjacent rs (find_if 0 x rs) ids = Inr q"
  shows "sublist (x # ids) (map rowset_id rs)"
proof -
  let ?i = "find_if 0 x rs" and ?k = "Suc (length ids)"
  have "map rowset_id rs = map rowset_id (take ?i rs) @ map rowset_id (take ?k (drop ?i rs))
          @ map rowset_id (drop ?k (drop ?i rs))"
    by (metis append_take_drop_id map_append)
  with inputs_contiguous [OF assms] show ?thesis
    unfolding sublist_def by metis
qed

section \<open>Non-primary-key compaction: the splice and the cumulative point\<close>

lemma splice_compaction_inputs:
  "compaction_inputs (splice op i e m) = compaction_inputs m @ take (e - i) (drop i (rowsets m))"
  by (simp add: splice_def Let_def)

lemma splice_cumulative_point:
  "cumulative_point (splice op i e m) = cumulative_point m"
  by (simp add: splice_def Let_def)

lemma splice_next_rowset_id:
  "next_rowset_id (splice op i e m) = advanced_next_rowset_id op m"
  by (simp add: splice_def Let_def advanced_next_rowset_id_def has_output_def split: option.splits)

lemma splice_rowsets:
  assumes "i < length (rowsets m)" and "i < e"
  shows "rowsets (splice op i e m) = take i (rowsets m) @ placed_output op m @ drop e (rowsets m)"
proof (cases "has_output op")
  case False
  then show ?thesis
    by (auto simp: splice_def Let_def erase_def placed_output_def has_output_def split: option.splits)
next
  case True
  then obtain r where r: "output_rowset op = Some r" "num_rows r > 0"
    by (auto simp: has_output_def split: option.splits)
  let ?o = "r\<lparr>rowset_id := next_rowset_id m\<rparr>"
  have t: "take (Suc i) ((rowsets m)[i := ?o]) = take i (rowsets m) @ [?o]"
    using assms(1) by (simp add: take_Suc_conv_app_nth)
  have d: "drop e ((rowsets m)[i := ?o]) = drop e (rowsets m)"
    using assms(2) by simp
  show ?thesis using True r t d
    by (simp add: splice_def Let_def erase_def placed_output_def)
qed

text \<open>What a run that passes the two input checks returns.\<close>

lemma compaction_checks_passed:
  assumes inp: "input_rowsets op = x # ids"
      and found: "find_if 0 x (rowsets m) \<noteq> length (rowsets m)"
      and adj: "check_adjacent (rowsets m) (find_if 0 x (rowsets m)) ids = Inr q"
  shows "nonpk_apply_compaction_log cfg op m
           = set_new_cumulative_point cfg op (of_nat (find_if 0 x (rowsets m)))
               (splice op (find_if 0 x (rowsets m)) (find_if 0 x (rowsets m) + length (x # ids)) m)"
proof -
  from find_if_found [OF found] have lt: "find_if 0 x (rowsets m) < length (rowsets m)" by simp
  from check_adjacent_Inr [OF adj lt] have "q = find_if 0 x (rowsets m) + length ids" by simp
  then show ?thesis using inp found adj by (simp add: nonpk_apply_compaction_log_def Let_def)
qed

lemma spliced_fields:
  assumes inp: "input_rowsets op = x # ids"
      and found: "find_if 0 x (rowsets m) \<noteq> length (rowsets m)"
      and adj: "check_adjacent (rowsets m) (find_if 0 x (rowsets m)) ids = Inr q"
  defines "m' \<equiv> splice op (find_if 0 x (rowsets m)) (find_if 0 x (rowsets m) + length (x # ids)) m"
  shows "compaction_inputs m' = compaction_inputs m @ moved_inputs op m"
    and "rowsets m' = take (find_if 0 x (rowsets m)) (rowsets m) @ placed_output op m
                       @ drop (find_if 0 x (rowsets m) + length (x # ids)) (rowsets m)"
    and "next_rowset_id m' = advanced_next_rowset_id op m"
    and "cumulative_point m' = cumulative_point m"
    and "map rowset_id (moved_inputs op m) = input_rowsets op"
    and "find_if 0 x (rowsets m) + length (x # ids) \<le> length (rowsets m)"
proof -
  from find_if_found [OF found] have lt: "find_if 0 x (rowsets m) < length (rowsets m)" by simp
  from check_adjacent_Inr [OF adj lt] have q: "find_if 0 x (rowsets m) + length ids < length (rowsets m)" by simp
  show "compaction_inputs m' = compaction_inputs m @ moved_inputs op m"
    by (simp add: m'_def splice_compaction_inputs moved_inputs_def inp)
  show "rowsets m' = take (find_if 0 x (rowsets m)) (rowsets m) @ placed_output op m
                       @ drop (find_if 0 x (rowsets m) + length (x # ids)) (rowsets m)"
    unfolding m'_def by (rule splice_rowsets [OF lt]) simp
  show "next_rowset_id m' = advanced_next_rowset_id op m"
    by (simp add: m'_def splice_next_rowset_id)
  show "cumulative_point m' = cumulative_point m"
    by (simp add: m'_def splice_cumulative_point)
  show "map rowset_id (moved_inputs op m) = input_rowsets op"
    using inputs_contiguous [OF found adj, symmetric] by (simp add: moved_inputs_def inp)
  show "find_if 0 x (rowsets m) + length (x # ids) \<le> length (rowsets m)" using q by simp
qed

lemma set_new_cumulative_point_error:
  assumes "fst (set_new_cumulative_point cfg op i m) \<noteq> OK"
  shows "snd (set_new_cumulative_point cfg op i m) = m"
  using assms by (auto simp: set_new_cumulative_point_def Let_def split: if_splits)

lemma not_cp_message_1 [simp]: "\<not> prefix ''new cumulative point'' (''input rowset '' @ t)"
  by (simp add: prefix_Cons)

lemma not_cp_message_2 [simp]: "\<not> prefix ''new cumulative point'' ''input rowset position not adjacent''"
  by (simp add: prefix_Cons)

lemma unat_of_nat_u32: "n < 2 ^ 32 \<Longrightarrow> unat (of_nat n :: u32) = n"
  by (simp add: unat_of_nat)

lemma set_new_cumulative_point_nat:
  fixes m :: tablet_metadata
  assumes nt: "\<not> enable_size_tiered_compaction_strategy cfg"
      and i: "i < 2 ^ 31"
      and k: "0 < length (input_rowsets op)" "length (input_rowsets op) < 2 ^ 31"
      and n: "length (rowsets m) < 2 ^ 32"
  defines "F \<equiv> spec_new_cumulative_point i (unat (cumulative_point m)) (length (input_rowsets op)) (has_output op)"
  shows "set_new_cumulative_point cfg op (of_nat i) m =
           (if length (rowsets m) < F
            then (InternalError (''new cumulative point: '' @ fmt_nat F
                                 @ '' exceeds rowset size: '' @ fmt_nat (length (rowsets m))), m)
            else (OK, m\<lparr>cumulative_point := of_nat F\<rparr>))"
    and "F < 2 ^ 32"
proof -
  let ?cp = "cumulative_point m" and ?k = "length (input_rowsets op)"
  let ?w = "if (of_nat i :: u32) \<ge> ?cp then of_nat i
              else if ?cp \<ge> of_nat ?k then ?cp - of_nat ?k else (0 :: u32)"
  let ?v = "if i \<ge> unat ?cp then i else if unat ?cp \<ge> ?k then unat ?cp - ?k else 0"
  have ui: "unat (of_nat i :: u32) = i" using i by (simp add: unat_of_nat_u32)
  have uk: "unat (of_nat ?k :: u32) = ?k" using k by (simp add: unat_of_nat_u32)
  have un: "unat (of_nat (length (rowsets m)) :: u32) = length (rowsets m)"
    using n by (simp add: unat_of_nat_u32)
  have cpb: "unat ?cp < 2 ^ 32" using unsigned_less [of ?cp] by simp
  have c1: "((of_nat i :: u32) \<ge> ?cp) = (i \<ge> unat ?cp)" by (simp add: word_le_nat_alt ui)
  have c2: "(?cp \<ge> of_nat ?k) = (unat ?cp \<ge> ?k)" by (simp add: word_le_nat_alt uk)
  have sub: "?cp \<ge> of_nat ?k \<Longrightarrow> unat (?cp - of_nat ?k) = unat ?cp - ?k"
    by (simp add: unat_sub uk)
  have u0: "unat ?w = ?v"
  proof (cases "i \<ge> unat ?cp")
    case True
    then show ?thesis by (simp only: c1 ui if_True)
  next
    case ge: False
    show ?thesis
    proof (cases "unat ?cp \<ge> ?k")
      case True
      then have "?cp \<ge> of_nat ?k" by (simp only: c2)
      from sub [OF this] show ?thesis using ge True by (simp only: c1 c2 if_True if_False)
    next
      case False
      then show ?thesis using ge by (simp only: c1 c2 if_False unsigned_0)
    qed
  qed
  have kpos: "1 \<le> ?k" using k(1) by linarith
  have b0: "?v + 1 < 2 ^ 32"
  proof (cases "i \<ge> unat ?cp")
    case True
    then show ?thesis using i by simp
  next
    case ge: False
    show ?thesis
    proof (cases "unat ?cp \<ge> ?k")
      case True
      have "unat ?cp - ?k + 1 < 2 ^ 32" using kpos cpb True by linarith
      then show ?thesis using ge True by (simp only: if_True if_False)
    next
      case False
      then show ?thesis using ge by simp
    qed
  qed
  let ?new = "if has_output op then ?w + 1 else ?w"
  have "unat (?w + 1) = ?v + 1"
  proof -
    have "unat ?w + unat (1 :: u32) < 2 ^ LENGTH(32)" using u0 b0 by simp
    then have "unat (?w + 1) = unat ?w + unat (1 :: u32)" by (simp only: unat_add_lem [THEN iffD1])
    then show ?thesis using u0 by simp
  qed
  then have unew: "unat ?new = F" using u0 by (simp add: F_def spec_new_cumulative_point_def)
  show Fb: "F < 2 ^ 32" using b0 by (auto simp: F_def spec_new_cumulative_point_def)
  have "of_nat (unat ?new) = ?new" by simp
  then have new_eq: "?new = of_nat F" by (simp only: unew)
  have c3: "(?new > of_nat (length (rowsets m))) = (length (rowsets m) < F)"
    by (simp only: word_less_nat_alt un unew)
  show "set_new_cumulative_point cfg op (of_nat i) m =
           (if length (rowsets m) < F
            then (InternalError (''new cumulative point: '' @ fmt_nat F
                                 @ '' exceeds rowset size: '' @ fmt_nat (length (rowsets m))), m)
            else (OK, m\<lparr>cumulative_point := of_nat F\<rparr>))"
    unfolding set_new_cumulative_point_def Let_def using nt c3 unew new_eq by simp
qed

lemma length_placed_output: "length (placed_output op m) \<le> 1"
  by (simp add: placed_output_def split: option.splits)

lemma run_BC_to_X:
  "nonpk_apply_compaction_log example_config op_BC_to_X (example_metadata rowsets_ABCD 100 1)
     = (OK, (example_metadata [example_rowset 1 1 10, example_rowset 100 2 10, example_rowset 4 1 10] 102 2)
              \<lparr>compaction_inputs := [example_rowset 2 1 10, example_rowset 3 1 10]\<rparr>)"
  by (simp add: nonpk_apply_compaction_log_def find_if_def rowsets_ABCD_def example_rowset_def
      example_metadata_def op_BC_to_X_def splice_def set_new_cumulative_point_def has_output_def
      erase_def example_config_def segments_size_def)

lemma run_A_only:
  "nonpk_apply_compaction_log example_config op_A_only
        (example_metadata [example_rowset 1 1 10, example_rowset 2 1 10] 3 5)
     = (InternalError ''new cumulative point: 4 exceeds rowset size: 1'',
        (example_metadata [example_rowset 2 1 10] 3 5)\<lparr>compaction_inputs := [example_rowset 1 1 10]\<rparr>)"
  by (simp add: nonpk_apply_compaction_log_def find_if_def example_rowset_def
      example_metadata_def op_A_only_def splice_def set_new_cumulative_point_def has_output_def
      erase_def example_config_def segments_size_def fmt_nat.simps digit_char_def)

lemma run_A_to_X:
  "nonpk_apply_compaction_log example_config op_A_to_X
        (example_metadata [example_rowset 1 1 10, example_rowset 2 1 10] 3 5)
     = (InternalError ''new cumulative point: 5 exceeds rowset size: 2'',
        (example_metadata [example_rowset 3 1 10, example_rowset 2 1 10] 4 5)\<lparr>compaction_inputs := [example_rowset 1 1 10]\<rparr>)"
  by (simp add: nonpk_apply_compaction_log_def find_if_def example_rowset_def
      example_metadata_def op_A_to_X_def splice_def set_new_cumulative_point_def has_output_def
      erase_def example_config_def segments_size_def fmt_nat.simps digit_char_def)

section \<open>Schema change: the rowset loop\<close>

lemma foldl_add_schema_change_rowset:
  "foldl add_schema_change_rowset m rs =
     m\<lparr>rowsets := rowsets m @ rs,
       next_rowset_id := (if rs = [] then next_rowset_id m else rowset_id_end (last rs))\<rparr>"
  by (induction rs rule: rev_induct) (simp_all add: add_schema_change_rowset_def rowset_id_end_def)

lemma foldl_max_le:
  fixes b :: "'a :: linorder"
  shows "n \<le> b \<Longrightarrow> \<forall>r\<in>set rs. f r \<le> b \<Longrightarrow> foldl (\<lambda>n r. max n (f r)) n rs \<le> b"
  by (induction rs arbitrary: n) simp_all

lemma foldl_max_last:
  fixes n :: "'a :: linorder"
  assumes "rs \<noteq> []" and "n \<le> f (last rs)" and "\<forall>r\<in>set rs. f r \<le> f (last rs)"
  shows "foldl (\<lambda>n r. max n (f r)) n rs = f (last rs)"
proof -
  from assms(1) obtain ys l where rs: "rs = ys @ [l]" by (metis rev_exhaust)
  have "foldl (\<lambda>n r. max n (f r)) n ys \<le> f l"
    using assms(2,3) rs by (intro foldl_max_le) simp_all
  then show ?thesis using rs by (simp add: max_def)
qed

section \<open>The version field through the life of an applier\<close>

lemma pk_keepsD: "pk_keeps f \<Longrightarrow> pk_versions (snd (f s)) = pk_versions s"
  by (simp add: pk_keeps_def)

lemma pk_keeps_pair: "pk_keeps f \<Longrightarrow> f s = (r, s') \<Longrightarrow> pk_versions s' = pk_versions s"
  using pk_keepsD [of f s] by simp

lemma pk_keeps_call: "keeps_version f \<Longrightarrow> pk_keeps (call f)"
  unfolding keeps_version_def pk_keeps_def call_def pk_versions_def
  by (auto split: prod.splits) (metis fst_conv snd_conv)

lemma pk_versions_effect [simp]: "pk_versions (effect g s) = pk_versions s"
  by (simp add: effect_def pk_versions_def)

lemma pk_versions_set_recover_flag [simp]: "pk_versions (set_recover_flag f s) = pk_versions s"
  by (simp add: set_recover_flag_def pk_versions_def)

lemma pk_versions_release_entry [simp]: "pk_versions (release_entry c s) = pk_versions s"
  by (simp add: release_entry_def effect_def pk_versions_def)

lemma pk_versions_index_entry [simp]: "pk_versions (s\<lparr>pk_index_entry := e\<rparr>) = pk_versions s"
  by (simp add: pk_versions_def)

lemma pk_versions_max_txn_id [simp]: "pk_versions (s\<lparr>pk_max_txn_id := t\<rparr>) = pk_versions s"
  by (simp add: pk_versions_def)

lemma pk_versions_has_finalized [simp]: "pk_versions (s\<lparr>pk_has_finalized := t\<rparr>) = pk_versions s"
  by (simp add: pk_versions_def)

lemma pk_versions_then_do:
  "pk_keeps f \<Longrightarrow> pk_versions (snd (then_do r f)) = pk_versions (snd r)"
  by (cases r; cases "fst r") (auto simp: then_do_def pk_keepsD split: status.splits)

lemma pk_keeps_ensure_index_entry:
  assumes "collaborators_keep_version c"
  shows "pk_keeps (ensure_index_entry c)"
proof -
  have k: "\<And>bv nv. pk_keeps (call (prepare_primary_index c bv nv))"
    using assms by (simp add: collaborators_keep_version_def pk_keeps_call)
  show ?thesis
    unfolding pk_keeps_def
  proof
    fix s :: "'a pk_applier"
    from pk_keepsD [OF k, of "pk_base_version s" "pk_new_version s" s]
    show "pk_versions (snd (ensure_index_entry c s)) = pk_versions s"
      by (auto simp: ensure_index_entry_def split: option.splits prod.splits sum.splits)
  qed
qed

lemma pk_keeps_apply_write_log:
  assumes "collaborators_keep_version c"
  shows "pk_keeps (pk_apply_write_log c op txn)"
proof -
  have k: "\<And>e bv. pk_keeps (call (publish_primary_key_tablet c op txn e bv))"
    using assms by (simp add: collaborators_keep_version_def pk_keeps_call)
  show ?thesis
    unfolding pk_keeps_def
  proof
    fix s :: "'a pk_applier"
    let ?s1 = "effect (lock_shard_pk_index_shard c (pk_tablet s)) s"
    have e: "pk_versions (snd (ensure_index_entry c ?s1)) = pk_versions s"
      using pk_keepsD [OF pk_keeps_ensure_index_entry [OF assms], of ?s1] by simp
    show "pk_versions (snd (pk_apply_write_log c op txn s)) = pk_versions s"
      using e
      by (auto simp: pk_apply_write_log_def Let_def split: prod.splits sum.splits
          dest!: pk_keeps_pair [OF k])
  qed
qed

lemma pk_keeps_apply_compaction_log:
  assumes "collaborators_keep_version c"
  shows "pk_keeps (pk_apply_compaction_log c op txn)"
proof -
  have k: "\<And>e bv. pk_keeps (call (publish_primary_compaction c op txn e bv))"
    using assms by (simp add: collaborators_keep_version_def pk_keeps_call)
  show ?thesis
    unfolding pk_keeps_def
  proof
    fix s :: "'a pk_applier"
    let ?s1 = "effect (lock_shard_pk_index_shard c (pk_tablet s)) s"
    have e: "pk_versions (snd (ensure_index_entry c ?s1)) = pk_versions s"
      using pk_keepsD [OF pk_keeps_ensure_index_entry [OF assms], of ?s1] by simp
    show "pk_versions (snd (pk_apply_compaction_log c op txn s)) = pk_versions s"
      using e
      by (auto simp: pk_apply_compaction_log_def Let_def split: prod.splits sum.splits
          dest!: pk_keeps_pair [OF k])
  qed
qed

lemma pk_keeps_check_and_recover:
  assumes c: "collaborators_keep_version c" and f: "pk_keeps publish_func"
  shows "pk_keeps (check_and_recover cfg c publish_func)"
proof -
  have k: "pk_keeps (call (recover c))"
    using c by (simp add: collaborators_keep_version_def pk_keeps_call)
  show ?thesis
    unfolding pk_keeps_def
  proof
    fix s :: "'a pk_applier"
    obtain ret s1 where p: "publish_func s = (ret, s1)" by (cases "publish_func s")
    then have v1: "pk_versions s1 = pk_versions s" using pk_keepsD [OF f, of s] by simp
    obtain st s2 where r: "call (recover c) (release_entry c s1) = (st, s2)"
      by (cases "call (recover c) (release_entry c s1)")
    then have v2: "pk_versions s2 = pk_versions s"
      using pk_keepsD [OF k, of "release_entry c s1"] v1 by simp
    have v3: "pk_versions (snd (publish_func (set_recover_flag RecoverFlag_OK s2))) = pk_versions s"
      using pk_keepsD [OF f, of "set_recover_flag RecoverFlag_OK s2"] v2 by simp
    show "pk_versions (snd (check_and_recover cfg c publish_func s)) = pk_versions s"
      using p r v1 v2 v3 by (auto simp: check_and_recover_def split: status.splits)
  qed
qed

lemma version_foldl_add_schema_change_rowset [simp]:
  "version (foldl add_schema_change_rowset m rs) = version m"
  by (simp add: foldl_add_schema_change_rowset)

lemma pk_keeps_apply_schema_change_log: "pk_keeps (pk_apply_schema_change_log c op)"
  by (auto simp: pk_keeps_def pk_apply_schema_change_log_def Let_def pk_versions_def
      split: prod.splits option.splits)

lemma version_alter_meta_step [simp]: "version (fst (alter_meta_step c mw u)) = version (fst mw)"
  by (cases mw) (simp add: alter_meta_step_def split: option.splits)

lemma version_foldl_alter_meta_step [simp]:
  "version (fst (foldl (alter_meta_step c) mw us)) = version (fst mw)"
  by (induction us arbitrary: mw) simp_all

lemma version_apply_alter_meta_log [simp]:
  "version (fst (snd (apply_alter_meta_log c op mw))) = version (fst mw)"
  by (simp add: apply_alter_meta_log_def)

lemma pk_keeps_alter_meta: "pk_keeps (pk_alter_meta c op)"
proof -
  have "pk_versions (snd (pk_alter_meta c op s)) = pk_versions s" for s :: "'a pk_applier"
    using version_apply_alter_meta_log [of c op "(pk_metadata s, pk_world s)"]
    by (simp add: pk_alter_meta_def pk_versions_def split_beta)
  then show ?thesis by (simp add: pk_keeps_def)
qed

lemma pk_keeps_apply_write_logs:
  assumes "collaborators_keep_version c"
  shows "pk_keeps (pk_apply_write_logs c ws txn)"
proof -
  have "pk_versions (snd (pk_apply_write_logs c ws txn s)) = pk_versions s" for s :: "'a pk_applier"
  proof (induction ws arbitrary: s)
    case Nil
    then show ?case by simp
  next
    case (Cons w ws)
    obtain st s' where r: "pk_apply_write_log c w txn s = (st, s')"
      by (cases "pk_apply_write_log c w txn s")
    from pk_keeps_pair [OF pk_keeps_apply_write_log [OF assms] r]
    have v: "pk_versions s' = pk_versions s" .
    show ?case using r v Cons.IH [of s'] by (cases st) simp_all
  qed
  then show ?thesis by (simp add: pk_keeps_def)
qed

lemma version_set_source_schema [simp]: "version (set_source_schema op m) = version m"
  by (simp add: set_source_schema_def split: option.splits)

lemma pk_versions_set_source_schema [simp]: "pk_versions (pk_set_source_schema op s) = pk_versions s"
  by (simp add: pk_set_source_schema_def pk_versions_def)

lemma foldl_add_rebased_rowset:
  "foldl add_rebased_rowset (m, n) ws =
     (m\<lparr>rowsets := rowsets m @ map (rebased (next_rowset_id m)) ws\<rparr>,
      foldl (\<lambda>n r. max n (rowset_id_end r)) n (map (rebased (next_rowset_id m)) ws))"
  by (induction ws arbitrary: m n)
    (simp_all add: add_rebased_rowset_def rebased_def rowset_id_end_def Let_def)

lemma pk_keeps_apply_replication_log:
  assumes "collaborators_keep_version c"
  shows "pk_keeps (pk_apply_replication_log c op txn)"
proof -
  have "pk_versions (snd (pk_apply_replication_log c op txn s)) = pk_versions s" for s :: "'a pk_applier"
  proof (cases "txn_state (txn_meta op) = TXN_REPLICATED
                \<and> snapshot_version (txn_meta op) = pk_new_version s")
    case False
    then show ?thesis by (auto simp: pk_apply_replication_log_def)
  next
    case framing: True
    show ?thesis
    proof (cases "incremental_snapshot (txn_meta op)")
      case True
      obtain st s1 where r: "pk_apply_write_logs c (op_writes op) txn s = (st, s1)"
        by (cases "pk_apply_write_logs c (op_writes op) txn s")
      from pk_keeps_pair [OF pk_keeps_apply_write_logs [OF assms] r]
      have "pk_versions s1 = pk_versions s" .
      then show ?thesis using framing True r
        by (cases st) (simp_all add: pk_apply_replication_log_def)
    next
      case False
      show ?thesis using framing False
        by (auto simp: pk_apply_replication_log_def Let_def pk_versions_def effect_def
            pk_set_source_schema_def foldl_add_rebased_rowset split: prod.splits status.splits)
    qed
  qed
  then show ?thesis by (simp add: pk_keeps_def)
qed

lemma pk_keeps_const: "pk_keeps (\<lambda>s. (r, s))"
  by (simp add: pk_keeps_def)

lemma pk_keeps_then_do:
  assumes "pk_keeps f" and "pk_keeps g"
  shows "pk_keeps (\<lambda>s. then_do (f s) g)"
  using assms by (simp add: pk_keeps_def pk_versions_then_do)

lemma pk_keeps_option:
  assumes "\<And>op. pk_keeps (f op)"
  shows "pk_keeps (\<lambda>s. case x of None \<Rightarrow> (OK, s) | Some op \<Rightarrow> f op s)"
  using assms by (cases x) (simp_all add: pk_keeps_def)

lemma pk_keeps_apply:
  assumes c: "collaborators_keep_version c"
  shows "pk_keeps (pk_apply cfg c log)"
proof -
  let ?w = "\<lambda>s. case log_op_write log of None \<Rightarrow> (OK, s)
                 | Some op \<Rightarrow> check_and_recover cfg c (pk_apply_write_log c op (txn_id log)) s"
  let ?c = "\<lambda>s. case log_op_compaction log of None \<Rightarrow> (OK, s)
                 | Some op \<Rightarrow> check_and_recover cfg c (pk_apply_compaction_log c op (txn_id log)) s"
  let ?s = "\<lambda>s. case log_op_schema_change log of None \<Rightarrow> (OK, s)
                 | Some op \<Rightarrow> pk_apply_schema_change_log c op s"
  let ?r = "\<lambda>s. case log_op_replication log of None \<Rightarrow> (OK, s)
                 | Some op \<Rightarrow> pk_apply_replication_log c op (txn_id log) s"
  let ?a = "\<lambda>s. case log_op_alter_metadata log of
                   Some op \<Rightarrow> pk_alter_meta c op s
                 | None \<Rightarrow> then_do (?r s) (\<lambda>s. (OK, s))"
  have w: "pk_keeps ?w"
    by (intro pk_keeps_option pk_keeps_check_and_recover pk_keeps_apply_write_log c)
  have cc: "pk_keeps ?c"
    by (intro pk_keeps_option pk_keeps_check_and_recover pk_keeps_apply_compaction_log c)
  have sc: "pk_keeps ?s"
    by (intro pk_keeps_option pk_keeps_apply_schema_change_log)
  have r: "pk_keeps ?r"
    by (intro pk_keeps_option pk_keeps_apply_replication_log c)
  have a: "pk_keeps ?a"
  proof (cases "log_op_alter_metadata log")
    case None
    then show ?thesis using pk_keeps_then_do [OF r pk_keeps_const [of OK]] by simp
  next
    case (Some op)
    then show ?thesis using pk_keeps_alter_meta [of c op] by (simp add: pk_keeps_def)
  qed
  have all: "pk_keeps (\<lambda>s. then_do (?w s) (\<lambda>s. then_do (?c s) (\<lambda>s. then_do (?s s) ?a)))"
    by (intro pk_keeps_then_do w cc sc a)
  have "pk_versions (snd (pk_apply cfg c log s)) = pk_versions s" for s :: "'a pk_applier"
    using pk_keepsD [OF all, of "s\<lparr>pk_max_txn_id := max (pk_max_txn_id s) (txn_id log)\<rparr>"]
    by (simp add: pk_apply_def Let_def)
  then show ?thesis by (simp add: pk_keeps_def)
qed

lemma pk_keeps_finish:
  assumes c: "collaborators_keep_version c"
  shows "pk_keeps (pk_finish c)"
proof -
  have ic: "\<And>e. pk_keeps (call (index_commit c e))"
    using c by (simp add: collaborators_keep_version_def pk_keeps_call)
  have fin: "\<And>t. pk_keeps (call (finalize c t))"
    using c by (simp add: collaborators_keep_version_def pk_keeps_call)
  have "pk_versions (snd (pk_finish c s)) = pk_versions s" for s :: "'a pk_applier"
  proof -
    let ?f = "\<lambda>s. then_do (call (finalize c (pk_max_txn_id s)) s) (\<lambda>s. (OK, s\<lparr>pk_has_finalized := True\<rparr>))"
    have f: "pk_keeps ?f"
      using fin by (auto simp: pk_keeps_def then_do_def split: prod.splits status.splits
          dest!: pk_keeps_pair [OF fin])
    have "pk_versions (snd (case pk_index_entry s of None \<Rightarrow> (OK, s)
            | Some e \<Rightarrow> then_do (call (index_commit c e) s) (\<lambda>s. (OK, effect (update_object_size c e) s))))
            = pk_versions s"
      by (auto simp: then_do_def split: option.splits prod.splits status.splits
          dest!: pk_keeps_pair [OF ic])
    then show ?thesis
      unfolding pk_finish_def using pk_versions_then_do [OF f] by simp
  qed
  then show ?thesis by (simp add: pk_keeps_def)
qed

lemma version_nonpk_apply_write_log [simp]:
  "version (snd (nonpk_apply_write_log op m)) = version m"
  by (simp add: nonpk_apply_write_log_def split: option.splits)

lemma version_nonpk_apply_write_logs [simp]:
  "version (snd (nonpk_apply_write_logs ws m)) = version m"
proof (induction ws arbitrary: m)
  case Nil
  then show ?case by simp
next
  case (Cons w ws)
  obtain st m' where r: "nonpk_apply_write_log w m = (st, m')" by (cases "nonpk_apply_write_log w m")
  then have "version m' = version m" using version_nonpk_apply_write_log [of w m] by simp
  then show ?case using r Cons.IH [of m'] by (cases st) simp_all
qed

lemma version_splice [simp]: "version (splice op i e m) = version m"
  by (simp add: splice_def Let_def)

lemma version_set_new_cumulative_point [simp]:
  "version (snd (set_new_cumulative_point cfg op i m)) = version m"
  by (simp add: set_new_cumulative_point_def Let_def)

lemma version_nonpk_apply_compaction_log [simp]:
  "version (snd (nonpk_apply_compaction_log cfg op m)) = version m"
  by (simp add: nonpk_apply_compaction_log_def Let_def split: list.splits sum.splits)

lemma version_nonpk_apply_schema_change_log [simp]:
  "version (snd (nonpk_apply_schema_change_log op m)) = version m"
  by (simp add: nonpk_apply_schema_change_log_def)

lemma version_nonpk_apply_replication_log [simp]:
  "version (snd (nonpk_apply_replication_log nv op m)) = version m"
proof -
  have p: "version m' = version m0" if "nonpk_apply_write_logs ws m0 = (st, m')" for ws m0 st m'
    using version_nonpk_apply_write_logs [of ws m0] that by simp
  show ?thesis
    by (auto simp: nonpk_apply_replication_log_def Let_def split: prod.splits status.splits
        dest!: p)
qed

lemma np_keeps_on_metadata:
  assumes "\<And>m. version (snd (f m)) = version m"
  shows "np_keeps (on_metadata f)"
  using assms by (simp add: np_keeps_def on_metadata_def np_versions_def split_beta)

lemma np_keeps_option:
  assumes "\<And>op. np_keeps (f op)"
  shows "np_keeps (\<lambda>s. case x of None \<Rightarrow> (OK, s) | Some op \<Rightarrow> f op s)"
  using assms by (cases x) (simp_all add: np_keeps_def)

lemma np_keeps_then_do:
  assumes "np_keeps f" and "np_keeps g"
  shows "np_keeps (\<lambda>s. then_do (f s) g)"
proof -
  have "np_versions (snd (then_do (f s) g)) = np_versions s" for s
  proof (cases "f s")
    case (Pair st s')
    then have "np_versions s' = np_versions s" using assms(1) by (metis np_keeps_def snd_conv)
    then show ?thesis using Pair assms(2) by (cases st) (simp_all add: then_do_def np_keeps_def)
  qed
  then show ?thesis by (simp add: np_keeps_def)
qed

lemma np_keeps_alter_meta: "np_keeps (nonpk_alter_meta c op)"
proof -
  have "np_versions (snd (nonpk_alter_meta c op s)) = np_versions s" for s :: "'a nonpk_applier"
    using version_apply_alter_meta_log [of c op "(np_metadata s, np_world s)"]
    by (simp add: nonpk_alter_meta_def np_versions_def split_beta)
  then show ?thesis by (simp add: np_keeps_def)
qed

lemma np_keeps_apply: "np_keeps (nonpk_apply cfg c log)"
proof -
  let ?w = "\<lambda>s. case log_op_write log of None \<Rightarrow> (OK, s)
                 | Some op \<Rightarrow> on_metadata (nonpk_apply_write_log op) s"
  let ?c = "\<lambda>s. case log_op_compaction log of None \<Rightarrow> (OK, s)
                 | Some op \<Rightarrow> on_metadata (nonpk_apply_compaction_log cfg op) s"
  let ?s = "\<lambda>s. case log_op_schema_change log of None \<Rightarrow> (OK, s)
                 | Some op \<Rightarrow> on_metadata (nonpk_apply_schema_change_log op) s"
  let ?a = "\<lambda>s. case log_op_alter_metadata log of
                   Some op \<Rightarrow> nonpk_alter_meta c op s
                 | None \<Rightarrow> (OK, s)"
  have w: "np_keeps ?w" by (intro np_keeps_option np_keeps_on_metadata) simp
  have cc: "np_keeps ?c" by (intro np_keeps_option np_keeps_on_metadata) simp
  have sc: "np_keeps ?s" by (intro np_keeps_option np_keeps_on_metadata) simp
  have r: "np_keeps (\<lambda>s. case log_op_replication log of None \<Rightarrow> (OK, s)
                 | Some op \<Rightarrow> on_metadata (nonpk_apply_replication_log (np_new_version s) op) s)"
    by (auto simp: np_keeps_def on_metadata_def np_versions_def split_beta split: option.splits)
  have a: "np_keeps ?a"
    using np_keeps_alter_meta [of c] by (cases "log_op_alter_metadata log") (simp_all add: np_keeps_def)
  show ?thesis
    unfolding nonpk_apply_def
    by (intro np_keeps_then_do w cc sc r a)
qed

lemma example_collaborators_keep_version:
  "collaborators_keep_version (example_collaborators ps pf rs)"
  by (simp add: collaborators_keep_version_def keeps_version_def example_collaborators_def split_beta)

section \<open>Unfolding the example runs\<close>

lemmas example_run_defs =
  failing_publish_def example_collaborators_def logged_def pk_A_def PrimaryKeyTxnLogApplier_def
  example_metadata_def example_rowset_def example_config_def write_one_segment_def
  check_and_recover_def pk_apply_write_log_def ensure_index_entry_def call_def effect_def
  release_entry_def set_recover_flag_def need_recover_def need_re_publish_def rowset_of_def

section \<open>Primary-key replication does not depend on the recover routine\<close>

lemma call_recover_update [simp]:
  "call (prepare_primary_index (c\<lparr>recover := r\<rparr>) bv nv) = call (prepare_primary_index c bv nv)"
  by simp

lemma ensure_index_entry_recover_update [simp]:
  "ensure_index_entry (c\<lparr>recover := r\<rparr>) = ensure_index_entry c"
  by (rule ext) (simp add: ensure_index_entry_def cong: option.case_cong)

lemma pk_apply_write_log_recover_update [simp]:
  "pk_apply_write_log (c\<lparr>recover := r\<rparr>) = pk_apply_write_log c"
  by (intro ext) (simp add: pk_apply_write_log_def cong: prod.case_cong sum.case_cong if_cong)

lemma pk_apply_write_logs_recover_update [simp]:
  "pk_apply_write_logs (c\<lparr>recover := r\<rparr>) ws txn s = pk_apply_write_logs c ws txn s"
  by (induction ws arbitrary: s) (simp_all split: prod.splits status.splits)

lemma append_delvecs_recover_update [simp]:
  "append_delvecs (c\<lparr>recover := r\<rparr>) nv off ds b = append_delvecs c nv off ds b"
  by (induction ds arbitrary: b) (auto split: status.splits)

lemma pk_apply_replication_log_recover_update [simp]:
  "pk_apply_replication_log (c\<lparr>recover := r\<rparr>) op txn s = pk_apply_replication_log c op txn s"
  by (simp add: pk_apply_replication_log_def Let_def split_beta cong: if_cong status.case_cong)

lemma pk_apply_schema_change_log_recover_update [simp]:
  "pk_apply_schema_change_log (c\<lparr>recover := r\<rparr>) = pk_apply_schema_change_log c"
  by (intro ext) (simp add: pk_apply_schema_change_log_def Let_def cong: if_cong)

lemma alter_meta_step_recover_update [simp]:
  "alter_meta_step (c\<lparr>recover := r\<rparr>) = alter_meta_step c"
  by (intro ext) (simp add: alter_meta_step_def cong: option.case_cong prod.case_cong)

lemma pk_alter_meta_recover_update [simp]:
  "pk_alter_meta (c\<lparr>recover := r\<rparr>) = pk_alter_meta c"
  by (intro ext) (simp add: pk_alter_meta_def apply_alter_meta_log_def)

lemmas example_apply_defs =
  pk_apply_def then_do_def empty_log_def incremental_replication_def pk_apply_replication_log_def
  pk_set_source_schema_def set_source_schema_def

section \<open>Primary-key full-snapshot replication\<close>

lemma append_delvecs_OK:
  "append_delvecs c nv off ds b = (OK, b') \<Longrightarrow>
     appended_delvecs b' = appended_delvecs b @ map (\<lambda>(segment_id, d). (DelVector nv d, segment_id + off)) ds
     \<and> recover_flag b' = recover_flag b"
  by (induction ds arbitrary: b) (auto split: status.splits)

lemma foldl_max_ge_init:
  fixes n :: "'a :: linorder"
  shows "n \<le> foldl (\<lambda>n r. max n (f r)) n rs"
proof (induction rs arbitrary: n)
  case Nil
  then show ?case by simp
next
  case (Cons r rs)
  have "max n (f r) \<le> foldl (\<lambda>n r. max n (f r)) (max n (f r)) rs" by (rule Cons.IH)
  then show ?case by simp
qed

lemma foldl_max_ge_elem:
  fixes n :: "'a :: linorder"
  shows "r \<in> set rs \<Longrightarrow> f r \<le> foldl (\<lambda>n r. max n (f r)) n rs"
proof (induction rs arbitrary: n)
  case Nil
  then show ?case by simp
next
  case (Cons x rs)
  show ?case
  proof (cases "r = x")
    case True
    have "max n (f x) \<le> foldl (\<lambda>n r. max n (f r)) (max n (f x)) rs" by (rule foldl_max_ge_init)
    then show ?thesis using True by simp
  next
    case False
    with Cons.prems have "r \<in> set rs" by simp
    from Cons.IH [OF this] show ?thesis by simp
  qed
qed

lemma rebased_no_overflow:
  assumes "unat (rowset_id (rowset_of w)) + unat n + max 1 (segments_size (rowset_of w)) < 2 ^ 32"
  shows "n \<le> rowset_id (rebased n w)"
    and "unat (rowset_id_end (rebased n w)) = id_range_end (rebased n w)"
proof -
  let ?i = "rowset_id (rowset_of w)" and ?k = "max 1 (segments_size (rowset_of w))"
  have s1: "unat (?i + n) = unat ?i + unat n"
    using assms by (intro unat_add_lem [THEN iffD1]) simp
  show "n \<le> rowset_id (rebased n w)"
    by (simp add: rebased_def word_le_nat_alt s1)
  have k: "unat (of_nat ?k :: u32) = ?k" using assms by (intro unat_of_nat_u32) linarith
  have "unat ((?i + n) + of_nat ?k) = unat (?i + n) + unat (of_nat ?k :: u32)"
    using assms s1 k by (intro unat_add_lem [THEN iffD1]) simp
  then show "unat (rowset_id_end (rebased n w)) = id_range_end (rebased n w)"
    using k by (simp add: rowset_id_end_def id_range_end_def rebased_def segments_size_def)
qed

lemmas example_replication_defs =
  pk_apply_replication_log_def full_replication_def write_with_id_def add_rebased_rowset_def
  pk_set_source_schema_def set_source_schema_def segments_size_def

section \<open>The order of the op fields in apply\<close>

lemma run_steps_Cons: "run_steps (f # fs) s = then_do (f s) (run_steps fs)"
  by (simp add: run_steps.simps(2) then_do_def)

lemma then_do_return: "then_do r (\<lambda>s. (OK, s)) = r"
  by (cases r; cases "fst r") (simp_all add: then_do_def)

lemma then_do_OK: "then_do (OK, s) f = f s"
  by (simp add: then_do_def)

lemma run_steps_Nil: "run_steps [] = (\<lambda>s. (OK, s))"
  by (rule ext) simp

lemma run_steps_single: "run_steps [f] = f"
  by (rule ext) (simp add: run_steps_Cons run_steps_Nil then_do_return)

lemma run_steps_Cons_fun: "run_steps (f # g # fs) = (\<lambda>s. then_do (f s) (run_steps (g # fs)))"
  by (rule ext) (rule run_steps_Cons)

lemmas run_steps_unfold = run_steps_Cons_fun run_steps_single then_do_return then_do_OK

lemma nonpk_apply_code_order:
  "nonpk_apply cfg c log s
     = run_steps (map (nonpk_step cfg c log)
         [Write, Compaction, SchemaChange, Replication, AlterMetadata]) s"
proof -
  let ?st = "nonpk_step cfg c log"
  have a: "(\<lambda>s. case log_op_alter_metadata log of Some op \<Rightarrow> nonpk_alter_meta c op s | None \<Rightarrow> (OK, s))
             = ?st AlterMetadata"
    by (rule ext) (simp split: option.splits)
  have "nonpk_apply cfg c log s
          = then_do (?st Write s)
              (\<lambda>s. then_do (?st Compaction s)
              (\<lambda>s. then_do (?st SchemaChange s)
              (\<lambda>s. then_do (?st Replication s)
              (\<lambda>s. case log_op_alter_metadata log of
                      Some op \<Rightarrow> nonpk_alter_meta c op s | None \<Rightarrow> (OK, s)))))"
    by (simp add: nonpk_apply_def)
  also have "\<dots> = then_do (?st Write s)
              (\<lambda>s. then_do (?st Compaction s)
              (\<lambda>s. then_do (?st SchemaChange s)
              (\<lambda>s. then_do (?st Replication s) (?st AlterMetadata))))"
    unfolding a ..
  also have "\<dots> = run_steps [?st Write, ?st Compaction, ?st SchemaChange, ?st Replication,
                              ?st AlterMetadata] s"
    by (simp add: run_steps_unfold)
  finally show ?thesis by simp
qed

lemma nonpk_apply_spec_order:
  assumes "log_op_alter_metadata log = None \<or> log_op_replication log = None"
  shows "nonpk_apply cfg c log s = spec_nonpk_apply cfg c log s"
proof -
  let ?st = "nonpk_step cfg c log"
  have sw: "run_steps [?st Replication, ?st AlterMetadata]
          = run_steps [?st AlterMetadata, ?st Replication]"
  proof (cases "log_op_alter_metadata log")
    case None
    then have "?st AlterMetadata = (\<lambda>s. (OK, s))" by (intro ext) simp
    then show ?thesis
      by (intro ext) (simp add: run_steps_unfold)
  next
    case (Some op)
    with assms have "log_op_replication log = None" by simp
    then have "?st Replication = (\<lambda>s. (OK, s))" by (intro ext) simp
    then show ?thesis
      by (intro ext) (simp add: run_steps_unfold)
  qed
  have "nonpk_apply cfg c log s
          = then_do (?st Write s) (\<lambda>s. then_do (?st Compaction s) (\<lambda>s. then_do (?st SchemaChange s)
              (run_steps [?st Replication, ?st AlterMetadata])))"
    unfolding nonpk_apply_code_order by (simp add: run_steps_unfold)
  also have "\<dots> = then_do (?st Write s) (\<lambda>s. then_do (?st Compaction s) (\<lambda>s. then_do (?st SchemaChange s)
              (run_steps [?st AlterMetadata, ?st Replication])))"
    unfolding sw ..
  also have "\<dots> = spec_nonpk_apply cfg c log s"
    by (simp add: spec_nonpk_apply_def spec_order_def run_steps_unfold)
  finally show ?thesis .
qed

lemma pk_apply_spec_order:
  assumes "log_op_alter_metadata log = None \<or> log_op_replication log = None"
  shows "pk_apply cfg c log s = spec_pk_apply cfg c log s"
proof -
  let ?st = "pk_step cfg c log"
  have last: "(\<lambda>s'. case log_op_alter_metadata log of
                 Some op \<Rightarrow> pk_alter_meta c op s'
               | None \<Rightarrow> then_do (case log_op_replication log of None \<Rightarrow> (OK, s')
                                  | Some op \<Rightarrow> pk_apply_replication_log c op (txn_id log) s')
                           (\<lambda>s. (OK, s)))
                = run_steps [?st AlterMetadata, ?st Replication]"
  proof (cases "log_op_alter_metadata log")
    case None
    then have "?st AlterMetadata = (\<lambda>s. (OK, s))" by (intro ext) simp
    then show ?thesis using None
      by (intro ext) (simp add: run_steps_unfold)
  next
    case (Some op)
    with assms have "log_op_replication log = None" by simp
    then have "?st Replication = (\<lambda>s. (OK, s))" by (intro ext) simp
    then show ?thesis using Some
      by (intro ext) (simp add: run_steps_unfold)
  qed
  show ?thesis
    unfolding pk_apply_def spec_pk_apply_def spec_order_def Let_def last
    by (simp add: run_steps_unfold)
qed

lemmas example_order_defs =
  quiet_def log_alter_and_bad_replication_def log_alter_and_replication_S3_def log_write_and_alter_def
  alter_schema_op_def unreplicated_replication_def replication_S3_def pk_S3_def nonpk_A_def
  NonPrimaryKeyTxnLogApplier_def nonpk_apply_def spec_nonpk_apply_def spec_pk_apply_def spec_order_def
  run_steps_Cons on_metadata_def nonpk_alter_meta_def pk_alter_meta_def apply_alter_meta_log_def
  alter_meta_step_def nonpk_apply_replication_log_def nonpk_apply_write_log_def

section \<open>Non-primary-key compaction: inputs that occur in their order\<close>

lemma subseq_after_first:
  "subseq (x # ids) (map rowset_id rs) \<Longrightarrow>
     subseq ids (map rowset_id (drop (Suc (find_if 0 x rs)) rs))"
proof (induction rs)
  case Nil
  then show ?case by simp
next
  case (Cons r rs)
  show ?case
  proof (cases "rowset_id r = x")
    case True
    with Cons.prems show ?thesis by (simp add: find_if_def)
  next
    case False
    with Cons.prems have "subseq (x # ids) (map rowset_id rs)"
      by simp
    from Cons.IH [OF this] False show ?thesis by (simp add: find_if_def)
  qed
qed

lemma find_if_from_present:
  assumes "x \<in> rowset_id ` set (drop p rs)"
  shows "find_if p x rs \<noteq> length rs"
proof
  assume e: "find_if p x rs = length rs"
  have "p \<le> length rs" using assms by (cases "p \<le> length rs") auto
  with e have "length (takeWhile (\<lambda>r. rowset_id r \<noteq> x) (drop p rs)) = length (drop p rs)"
    by (simp add: find_if_def)
  then have "takeWhile (\<lambda>r. rowset_id r \<noteq> x) (drop p rs) = drop p rs"
    by (metis takeWhile_eq_take take_all order_refl)
  then have "\<forall>r\<in>set (drop p rs). rowset_id r \<noteq> x" by (metis set_takeWhileD)
  with assms show False by auto
qed

lemma check_adjacent_subseq:
  "subseq ids (map rowset_id (drop (Suc p) rs)) \<Longrightarrow> p < length rs \<Longrightarrow>
     check_adjacent rs p ids = Inl st \<Longrightarrow>
     st = InternalError ''input rowset position not adjacent''"
proof (induction ids arbitrary: p)
  case Nil
  then show ?case by simp
next
  case (Cons y ys)
  have "y \<in> set (y # ys)" by simp
  with Cons.prems(1) have "y \<in> set (map rowset_id (drop (Suc p) rs))"
    by (auto elim: list_emb_set)
  then have found: "find_if (Suc p) y rs \<noteq> length rs"
    by (intro find_if_from_present) simp
  show ?case
  proof (cases "find_if (Suc p) y rs = Suc p")
    case False
    with found Cons.prems(3) show ?thesis by (simp add: Let_def)
  next
    case True
    from found True have ne: "Suc p \<noteq> length rs" by simp
    from find_if_next [OF True ne Cons.prems(2)]
    have lt: "Suc p < length rs" and idx: "rowset_id (rs ! Suc p) = y" by simp_all
    have d: "drop (Suc p) rs = rs ! Suc p # drop (Suc (Suc p)) rs"
      using lt by (simp add: Cons_nth_drop_Suc)
    from Cons.prems(1) have sub: "subseq ys (map rowset_id (drop (Suc (Suc p)) rs))"
      unfolding d using idx by simp
    from Cons.prems(3) True ne have rec: "check_adjacent rs (Suc p) ys = Inl st"
      by (simp add: Let_def)
    from Cons.IH [OF sub lt rec] show ?thesis .
  qed
qed

section \<open>Non-primary-key compaction: which error a broken run gives\<close>

lemma find_if_first_position:
  "find_if 0 x rs = first_position x (map rowset_id rs)"
  by (simp add: find_if_def first_position_def takeWhile_map comp_def)

lemma find_if_absent:
  assumes "x \<notin> rowset_id ` set (drop p rs)" and "p \<le> length rs"
  shows "find_if p x rs = length rs"
proof -
  have "\<forall>r\<in>set (drop p rs). rowset_id r \<noteq> x" using assms(1) by auto
  then have "takeWhile (\<lambda>r. rowset_id r \<noteq> x) (drop p rs) = drop p rs"
    by (simp only: takeWhile_eq_all_conv)
  then have "length (takeWhile (\<lambda>r. rowset_id r \<noteq> x) (drop p rs)) = length rs - p"
    by (simp only: length_drop)
  then show ?thesis using assms(2) unfolding find_if_def by arith
qed

lemma check_adjacent_exact:
  "p < length rs \<Longrightarrow>
   check_adjacent rs p ids =
     (let n = length (longest_common_prefix ids (map rowset_id (drop (Suc p) rs)))
      in if n = length ids then Inr (p + length ids)
         else if ids ! n \<in> rowset_id ` set (drop (Suc (p + n)) rs)
         then Inl (InternalError ''input rowset position not adjacent'')
         else Inl (InternalError (''input rowset '' @ fmt_nat (unat (ids ! n)) @ '' not exist'')))"
proof (induction ids arbitrary: p)
  case Nil
  then show ?case by simp
next
  case (Cons y ys)
  show ?case
  proof (cases "Suc p = length rs")
    case True
    then have e: "drop (Suc p) rs = []" by simp
    have "find_if (Suc p) y rs = length rs" using True by (simp add: find_if_def)
    then show ?thesis using e by (simp add: Let_def)
  next
    case False
    with Cons.prems have lt: "Suc p < length rs" by simp
    then have d: "drop (Suc p) rs = rs ! Suc p # drop (Suc (Suc p)) rs"
      by (simp add: Cons_nth_drop_Suc)
    show ?thesis
    proof (cases "rowset_id (rs ! Suc p) = y")
      case True
      have f: "find_if (Suc p) y rs = Suc p" using d True by (simp add: find_if_def)
      have step: "check_adjacent rs p (y # ys) = check_adjacent rs (Suc p) ys"
        using f False by (simp add: Let_def)
      show ?thesis
        unfolding step Cons.IH [OF lt] d using True by (simp add: Let_def)
    next
      case ne: False
      have n0: "longest_common_prefix (y # ys) (map rowset_id (drop (Suc p) rs)) = []"
        unfolding d using ne by simp
      have far: "find_if (Suc p) y rs \<noteq> Suc p"
        using d ne by (simp add: find_if_def)
      show ?thesis
      proof (cases "y \<in> rowset_id ` set (drop (Suc p) rs)")
        case True
        from find_if_from_present [OF True] have "find_if (Suc p) y rs \<noteq> length rs" .
        then show ?thesis using far True n0 by (simp add: Let_def)
      next
        case False
        from find_if_absent [OF False] lt have "find_if (Suc p) y rs = length rs" by simp
        then show ?thesis using False n0 by (simp add: Let_def)
      qed
    qed
  qed
qed

lemma compaction_input_error:
  assumes inp: "input_rowsets op = x # ids"
      and found: "find_if 0 x (rowsets m) \<noteq> length (rowsets m)"
      and adj: "check_adjacent (rowsets m) (find_if 0 x (rowsets m)) ids = Inl st"
  shows "st = spec_input_error (input_rowsets op) (map rowset_id (rowsets m))"
    and "0 < matched_inputs (input_rowsets op) (map rowset_id (rowsets m))"
    and "matched_inputs (input_rowsets op) (map rowset_id (rowsets m)) < length (input_rowsets op)"
proof -
  let ?i = "find_if 0 x (rowsets m)" and ?rs = "rowsets m"
  from find_if_found [OF found] have lt: "?i < length ?rs" and idx: "rowset_id (?rs ! ?i) = x"
    by simp_all
  have d: "drop ?i ?rs = ?rs ! ?i # drop (Suc ?i) ?rs"
    using lt by (simp add: Cons_nth_drop_Suc)
  let ?n = "length (longest_common_prefix ids (map rowset_id (drop (Suc ?i) ?rs)))"
  have fp: "first_position x (map rowset_id ?rs) = ?i"
    by (simp only: find_if_first_position)
  have "drop ?i (map rowset_id ?rs) = x # map rowset_id (drop (Suc ?i) ?rs)"
    using d idx by (simp add: drop_map)
  then have m: "matched_inputs (x # ids) (map rowset_id ?rs) = Suc ?n"
    unfolding matched_inputs_def list.sel fp by simp
  have le: "?n \<le> length ids"
    by (rule prefix_length_le) (rule longest_common_prefix_prefix1)
  from adj check_adjacent_exact [OF lt, of ids]
  have ne: "?n \<noteq> length ids"
    and st: "st = (if ids ! ?n \<in> rowset_id ` set (drop (Suc (?i + ?n)) ?rs)
              then InternalError ''input rowset position not adjacent''
              else InternalError (''input rowset '' @ fmt_nat (unat (ids ! ?n)) @ '' not exist''))"
    by (auto simp: Let_def split: if_splits)
  have s: "set (drop (?i + Suc ?n) (map rowset_id ?rs)) = rowset_id ` set (drop (Suc (?i + ?n)) ?rs)"
    by (simp add: drop_map)
  show "st = spec_input_error (input_rowsets op) (map rowset_id (rowsets m))"
    unfolding inp spec_input_error_def m Let_def list.sel fp s using st by simp
  show "0 < matched_inputs (input_rowsets op) (map rowset_id (rowsets m))"
    unfolding inp m by simp
  show "matched_inputs (input_rowsets op) (map rowset_id (rowsets m)) < length (input_rowsets op)"
    unfolding inp m using le ne by simp
qed
section \<open>The claims\<close>

subsection \<open>C1: the order of the op fields within one apply\<close>

text \<open>
  C1, as stated, on two logs that carry a metadata alteration and a replication. On the
  non-primary-key applier, with a replication op in the wrong state: the apply fails with
  the replication's \<open>Corruption\<close> and the schema is still the old one, so the
  alteration had not been applied before the replication; in the order of the claim the
  schema would have been replaced first. On the primary-key applier, with a valid full
  replication: the apply returns \<open>OK\<close> and the replication has not been applied (the
  cumulative point is still 3, the primary index was not unloaded), although no step
  failed.
\<close>

theorem apply_order_differs_from_spec:
  "fst (nonpk_apply example_config quiet log_alter_and_bad_replication (nonpk_A []))
     = Corruption ''Invalid txn meta state: TXN_SNAPSHOTED''
   \<and> columns (schema (np_metadata (snd (nonpk_apply example_config quiet
          log_alter_and_bad_replication (nonpk_A []))))) = []
   \<and> columns (schema (np_metadata (snd (spec_nonpk_apply example_config quiet
          log_alter_and_bad_replication (nonpk_A []))))) = [''c1'']
   \<and> fst (pk_apply example_config quiet log_alter_and_replication_S3 pk_S3) = OK
   \<and> cumulative_point (pk_metadata (snd (pk_apply example_config quiet
          log_alter_and_replication_S3 pk_S3))) = 3
   \<and> pk_world (snd (pk_apply example_config quiet log_alter_and_replication_S3 pk_S3)) = []
   \<and> fst (spec_pk_apply example_config quiet log_alter_and_replication_S3 pk_S3) = OK
   \<and> cumulative_point (pk_metadata (snd (spec_pk_apply example_config quiet
          log_alter_and_replication_S3 pk_S3))) = 0
   \<and> pk_world (snd (spec_pk_apply example_config quiet log_alter_and_replication_S3 pk_S3))
       = [''unload_primary_index'']"
  by (simp add: example_order_defs example_apply_defs example_replication_defs example_run_defs)

text \<open>
  C1, amended: the non-primary-key applier applies every op field present on the log in
  the order write, compaction, schema change, replication, metadata alteration, until a
  step fails. For every log that does not carry both a metadata alteration and a
  replication, both appliers apply every op field present in the order of the
  specification (write, compaction, schema change, metadata alteration, replication),
  until a step fails.
\<close>

theorem apply_order:
  "nonpk_apply cfg c log s
     = run_steps (map (nonpk_step cfg c log)
         [Write, Compaction, SchemaChange, Replication, AlterMetadata]) s
   \<and> (log_op_alter_metadata log = None \<or> log_op_replication log = None \<longrightarrow>
        nonpk_apply cfg c log s = spec_nonpk_apply cfg c log s
        \<and> pk_apply cfg c' log s' = spec_pk_apply cfg c' log s')"
  using nonpk_apply_code_order [of cfg c log s] nonpk_apply_spec_order [of log cfg c s]
    pk_apply_spec_order [of log cfg c' s']
  by blast

text \<open>A log with a write and a metadata alteration, on both appliers.\<close>

theorem apply_order_witness:
  "log_op_replication log_write_and_alter = None
   \<and> nonpk_apply example_config quiet log_write_and_alter (nonpk_A [])
       = spec_nonpk_apply example_config quiet log_write_and_alter (nonpk_A [])
   \<and> pk_apply example_config quiet log_write_and_alter (pk_A [])
       = spec_pk_apply example_config quiet log_write_and_alter (pk_A [])
   \<and> fst (nonpk_apply example_config quiet log_write_and_alter (nonpk_A [])) = OK
   \<and> map rowset_id (rowsets (np_metadata (snd (nonpk_apply example_config quiet
          log_write_and_alter (nonpk_A []))))) = [1, 2]
   \<and> columns (schema (np_metadata (snd (nonpk_apply example_config quiet
          log_write_and_alter (nonpk_A []))))) = [''c1'']"
proof -
  have h: "log_op_replication log_write_and_alter = None"
    by (simp add: log_write_and_alter_def empty_log_def)
  note t = apply_order [of example_config quiet log_write_and_alter "nonpk_A []" quiet "pk_A []"]
  from t h have a: "nonpk_apply example_config quiet log_write_and_alter (nonpk_A [])
       = spec_nonpk_apply example_config quiet log_write_and_alter (nonpk_A [])"
    and b: "pk_apply example_config quiet log_write_and_alter (pk_A [])
       = spec_pk_apply example_config quiet log_write_and_alter (pk_A [])"
    by blast+
  have c: "fst (nonpk_apply example_config quiet log_write_and_alter (nonpk_A [])) = OK"
    and d: "map rowset_id (rowsets (np_metadata (snd (nonpk_apply example_config quiet
          log_write_and_alter (nonpk_A []))))) = [1, 2]"
    and e: "columns (schema (np_metadata (snd (nonpk_apply example_config quiet
          log_write_and_alter (nonpk_A []))))) = [''c1'']"
    by (simp_all add: example_order_defs example_apply_defs example_run_defs)
  show ?thesis by (intro conjI h a b c d e)
qed

subsection \<open>C2: rowset id ranges after a compaction with a segment-less output\<close>

text \<open>
  C2 at the input the claim singles out: one rowset \<open>A\<close> (id 1, one segment), next id 2,
  compacted into an output with 10 rows and no segment. The invariant holds before; the
  apply succeeds; the output takes id 2 and \<open>next_rowset_id\<close> stays 2, so it no longer
  exceeds every used id; the write that follows is given id 2 as well, and the two
  rowsets share their id.
\<close>

theorem zero_segment_output_reuses_rowset_id:
  "rowset_ids_ok (np_metadata (nonpk_A w))
   \<and> fst (nonpk_apply example_config c ((empty_log 1)\<lparr>log_op_compaction := Some op_A_to_empty_X\<rparr>) (nonpk_A w)) = OK
   \<and> map rowset_id (rowsets (np_metadata (snd (nonpk_apply example_config c
         ((empty_log 1)\<lparr>log_op_compaction := Some op_A_to_empty_X\<rparr>) (nonpk_A w))))) = [2]
   \<and> next_rowset_id (np_metadata (snd (nonpk_apply example_config c
         ((empty_log 1)\<lparr>log_op_compaction := Some op_A_to_empty_X\<rparr>) (nonpk_A w)))) = 2
   \<and> \<not> rowset_ids_ok (np_metadata (snd (nonpk_apply example_config c
         ((empty_log 1)\<lparr>log_op_compaction := Some op_A_to_empty_X\<rparr>) (nonpk_A w))))
   \<and> fst (nonpk_apply example_config c ((empty_log 2)\<lparr>log_op_write := Some write_one_segment\<rparr>)
          (snd (nonpk_apply example_config c
             ((empty_log 1)\<lparr>log_op_compaction := Some op_A_to_empty_X\<rparr>) (nonpk_A w)))) = OK
   \<and> map rowset_id (rowsets (np_metadata (snd (nonpk_apply example_config c
          ((empty_log 2)\<lparr>log_op_write := Some write_one_segment\<rparr>)
          (snd (nonpk_apply example_config c
             ((empty_log 1)\<lparr>log_op_compaction := Some op_A_to_empty_X\<rparr>) (nonpk_A w))))))) = [2, 2]
   \<and> \<not> pairwise_disjoint (used_rowsets (np_metadata (snd (nonpk_apply example_config c
          ((empty_log 2)\<lparr>log_op_write := Some write_one_segment\<rparr>)
          (snd (nonpk_apply example_config c
             ((empty_log 1)\<lparr>log_op_compaction := Some op_A_to_empty_X\<rparr>) (nonpk_A w)))))))"
  by (simp add: nonpk_A_def NonPrimaryKeyTxnLogApplier_def nonpk_apply_def then_do_def empty_log_def
      on_metadata_def op_A_to_empty_X_def write_one_segment_def
      nonpk_apply_compaction_log_def nonpk_apply_write_log_def find_if_def example_rowset_def
      example_metadata_def splice_def set_new_cumulative_point_def has_output_def
      erase_def example_config_def segments_size_def
      rowset_ids_ok_def used_rowsets_def id_range_end_def ranges_disjoint_def)

subsection \<open>C3: compaction inputs that are present but not a contiguous run\<close>

text \<open>
  C3, as stated, at rowsets \<open>[A, B, C, D]\<close> (ids 1 to 4) with inputs \<open>[C, A]\<close>: both ids
  are present and they are not a contiguous run of the rowset list, yet the error is
  \<open>input rowset 1 not exist\<close>, because the search for the second input starts behind
  the first one and reaches the end; it is not \<open>input rowset position not adjacent\<close>.
\<close>

theorem compaction_inputs_CA_not_exist:
  "set [3, 1] \<subseteq> rowset_id ` set rowsets_ABCD
   \<and> \<not> sublist [3, 1] (map rowset_id rowsets_ABCD)
   \<and> nonpk_apply_compaction_log example_config
        \<lparr>input_rowsets = [3, 1], output_rowset = None\<rparr> (example_metadata rowsets_ABCD 5 0)
      = (InternalError ''input rowset 1 not exist'', example_metadata rowsets_ABCD 5 0)
   \<and> InternalError ''input rowset 1 not exist'' \<noteq> InternalError ''input rowset position not adjacent''"
  by (simp add: nonpk_apply_compaction_log_def find_if_def rowsets_ABCD_def example_rowset_def
      example_metadata_def fmt_nat.simps digit_char_def sublist_Cons_right prefix_Cons)

text \<open>
  C3, amended: for every non-primary-key compaction op whose inputs are non-empty, all
  present in \<open>metadata.rowsets\<close> and not a contiguous run of it in their order, the
  apply fails and returns the metadata as it was. The status is decided by the first
  input that is not in the slot right after its predecessor, the inputs before it sitting
  in consecutive slots from the first rowset with the id of the first input (there is such
  an input, and it is not the first one): the status is
  \<open>InternalError("input rowset position not adjacent")\<close> if the id of that input occurs
  anywhere behind the position of its predecessor, and
  \<open>InternalError("input rowset N not exist")\<close>, with \<open>N\<close> the id of that input, if it
  occurs only at or before the position of its predecessor. In particular the status is
  \<open>InternalError("input rowset position not adjacent")\<close> whenever the inputs occur in
  \<open>metadata.rowsets\<close> in their order (as a subsequence with a gap).
\<close>

theorem compaction_not_contiguous:
  assumes "input_rowsets op \<noteq> []"
      and "set (input_rowsets op) \<subseteq> rowset_id ` set (rowsets m)"
      and "\<not> sublist (input_rowsets op) (map rowset_id (rowsets m))"
  shows "snd (nonpk_apply_compaction_log cfg op m) = m
         \<and> 0 < matched_inputs (input_rowsets op) (map rowset_id (rowsets m))
         \<and> matched_inputs (input_rowsets op) (map rowset_id (rowsets m))
             < length (input_rowsets op)
         \<and> fst (nonpk_apply_compaction_log cfg op m)
             = spec_input_error (input_rowsets op) (map rowset_id (rowsets m))
         \<and> (fst (nonpk_apply_compaction_log cfg op m)
              = InternalError ''input rowset position not adjacent''
            \<or> (\<exists>x\<in>set (input_rowsets op).
                 fst (nonpk_apply_compaction_log cfg op m)
                   = InternalError (''input rowset '' @ fmt_nat (unat x) @ '' not exist'')))
         \<and> (subseq (input_rowsets op) (map rowset_id (rowsets m)) \<longrightarrow>
              fst (nonpk_apply_compaction_log cfg op m)
                = InternalError ''input rowset position not adjacent'')"
proof -
  from assms(1) obtain x ids where inp: "input_rowsets op = x # ids"
    by (cases "input_rowsets op") auto
  with assms(2) have "x \<in> rowset_id ` set (rowsets m)" by simp
  then have found: "find_if 0 x (rowsets m) \<noteq> length (rowsets m)" by (rule find_if_present)
  show ?thesis
  proof (cases "check_adjacent (rowsets m) (find_if 0 x (rowsets m)) ids")
    case (Inl st)
    have run: "nonpk_apply_compaction_log cfg op m = (st, m)"
      using inp found Inl by (simp add: nonpk_apply_compaction_log_def)
    have "st = InternalError ''input rowset position not adjacent''"
      if "subseq (input_rowsets op) (map rowset_id (rowsets m))"
    proof -
      from that inp have "subseq ids (map rowset_id (drop (Suc (find_if 0 x (rowsets m))) (rowsets m)))"
        by (simp only: subseq_after_first)
      moreover from find_if_found [OF found] have "find_if 0 x (rowsets m) < length (rowsets m)"
        by simp
      ultimately show ?thesis using Inl by (rule check_adjacent_subseq)
    qed
    with check_adjacent_Inl [OF Inl] compaction_input_error [OF inp found Inl] show ?thesis
      unfolding run using inp by auto
  next
    case (Inr q)
    from sublist_of_inputs [OF found Inr] assms(3) inp show ?thesis by simp
  qed
qed

text \<open>
  Rowsets \<open>[A, B, C, D]\<close> (ids 1 to 4): inputs \<open>[A, C]\<close>, the example of the
  specification, and inputs \<open>[A, C, B]\<close> give \<open>input rowset position not adjacent\<close>
  (the search stops at \<open>C\<close>, which lies behind \<open>A\<close> but not next to it); inputs
  \<open>[C, A]\<close> give \<open>input rowset 1 not exist\<close> (\<open>A\<close> lies before \<open>C\<close> only).
\<close>

theorem compaction_not_contiguous_witness:
  "input_rowsets \<lparr>input_rowsets = [1, 3], output_rowset = None\<rparr> \<noteq> []
   \<and> set (input_rowsets \<lparr>input_rowsets = [1, 3], output_rowset = None\<rparr>)
       \<subseteq> rowset_id ` set (rowsets (example_metadata rowsets_ABCD 5 0))
   \<and> \<not> sublist (input_rowsets \<lparr>input_rowsets = [1, 3], output_rowset = None\<rparr>)
          (map rowset_id (rowsets (example_metadata rowsets_ABCD 5 0)))
   \<and> subseq (input_rowsets \<lparr>input_rowsets = [1, 3], output_rowset = None\<rparr>)
          (map rowset_id (rowsets (example_metadata rowsets_ABCD 5 0)))
   \<and> nonpk_apply_compaction_log example_config
        \<lparr>input_rowsets = [1, 3], output_rowset = None\<rparr> (example_metadata rowsets_ABCD 5 0)
      = (InternalError ''input rowset position not adjacent'', example_metadata rowsets_ABCD 5 0)
   \<and> set (input_rowsets \<lparr>input_rowsets = [1, 3, 2], output_rowset = None\<rparr>)
       \<subseteq> rowset_id ` set (rowsets (example_metadata rowsets_ABCD 5 0))
   \<and> \<not> sublist (input_rowsets \<lparr>input_rowsets = [1, 3, 2], output_rowset = None\<rparr>)
          (map rowset_id (rowsets (example_metadata rowsets_ABCD 5 0)))
   \<and> matched_inputs [1, 3, 2] (map rowset_id rowsets_ABCD) = 1
   \<and> nonpk_apply_compaction_log example_config
        \<lparr>input_rowsets = [1, 3, 2], output_rowset = None\<rparr> (example_metadata rowsets_ABCD 5 0)
      = (InternalError ''input rowset position not adjacent'', example_metadata rowsets_ABCD 5 0)
   \<and> set (input_rowsets \<lparr>input_rowsets = [3, 1], output_rowset = None\<rparr>)
       \<subseteq> rowset_id ` set (rowsets (example_metadata rowsets_ABCD 5 0))
   \<and> \<not> sublist (input_rowsets \<lparr>input_rowsets = [3, 1], output_rowset = None\<rparr>)
          (map rowset_id (rowsets (example_metadata rowsets_ABCD 5 0)))
   \<and> matched_inputs [3, 1] (map rowset_id rowsets_ABCD) = 1
   \<and> nonpk_apply_compaction_log example_config
        \<lparr>input_rowsets = [3, 1], output_rowset = None\<rparr> (example_metadata rowsets_ABCD 5 0)
      = (InternalError ''input rowset 1 not exist'', example_metadata rowsets_ABCD 5 0)"
proof -
  let ?m = "example_metadata rowsets_ABCD 5 0"
  let ?AC = "\<lparr>input_rowsets = [1, 3], output_rowset = None\<rparr>"
  let ?ACB = "\<lparr>input_rowsets = [1, 3, 2], output_rowset = None\<rparr>"
  let ?CA = "\<lparr>input_rowsets = [3, 1], output_rowset = None\<rparr>"
  have ids: "map rowset_id (rowsets ?m) = [1, 2, 3, 4]"
    by (simp add: example_metadata_def rowsets_ABCD_def example_rowset_def)
  have ids': "map rowset_id rowsets_ABCD = [1, 2, 3, 4]"
    by (simp add: rowsets_ABCD_def example_rowset_def)
  have a1: "input_rowsets ?AC \<noteq> []" by simp
  have a2: "set (input_rowsets ?AC) \<subseteq> rowset_id ` set (rowsets ?m)"
    by (simp add: example_metadata_def rowsets_ABCD_def example_rowset_def)
  have a3: "\<not> sublist (input_rowsets ?AC) (map rowset_id (rowsets ?m))"
    unfolding ids by (simp add: sublist_Cons_right prefix_Cons)
  have a4: "subseq (input_rowsets ?AC) (map rowset_id (rowsets ?m))"
    unfolding ids by simp
  note ta = compaction_not_contiguous [OF a1 a2 a3, of example_config]
  from ta have "snd (nonpk_apply_compaction_log example_config ?AC ?m) = ?m" by simp
  moreover from ta a4 have "fst (nonpk_apply_compaction_log example_config ?AC ?m)
              = InternalError ''input rowset position not adjacent''"
    by blast
  ultimately have runa: "nonpk_apply_compaction_log example_config ?AC ?m
               = (InternalError ''input rowset position not adjacent'', ?m)"
    by (simp add: prod_eq_iff)
  have b1: "input_rowsets ?ACB \<noteq> []" by simp
  have b2: "set (input_rowsets ?ACB) \<subseteq> rowset_id ` set (rowsets ?m)"
    by (simp add: example_metadata_def rowsets_ABCD_def example_rowset_def)
  have b3: "\<not> sublist (input_rowsets ?ACB) (map rowset_id (rowsets ?m))"
    unfolding ids by (simp add: sublist_Cons_right prefix_Cons)
  have b4: "matched_inputs [1, 3, 2] (map rowset_id rowsets_ABCD) = 1"
    unfolding ids' by (simp add: matched_inputs_def first_position_def)
  have b5: "spec_input_error [1, 3, 2] [1, 2, 3, 4]
              = InternalError ''input rowset position not adjacent''"
    by (simp add: spec_input_error_def matched_inputs_def first_position_def)
  note tb = compaction_not_contiguous [OF b1 b2 b3, of example_config]
  from tb have "snd (nonpk_apply_compaction_log example_config ?ACB ?m) = ?m" by simp
  moreover from tb have "fst (nonpk_apply_compaction_log example_config ?ACB ?m)
              = spec_input_error (input_rowsets ?ACB) (map rowset_id (rowsets ?m))"
    by blast
  then have "fst (nonpk_apply_compaction_log example_config ?ACB ?m)
              = InternalError ''input rowset position not adjacent''"
    unfolding ids using b5 by simp
  ultimately have runb: "nonpk_apply_compaction_log example_config ?ACB ?m
               = (InternalError ''input rowset position not adjacent'', ?m)"
    by (simp add: prod_eq_iff)
  have c1: "input_rowsets ?CA \<noteq> []" by simp
  have c2: "set (input_rowsets ?CA) \<subseteq> rowset_id ` set (rowsets ?m)"
    by (simp add: example_metadata_def rowsets_ABCD_def example_rowset_def)
  have c3: "\<not> sublist (input_rowsets ?CA) (map rowset_id (rowsets ?m))"
    unfolding ids by (simp add: sublist_Cons_right prefix_Cons)
  have c4: "matched_inputs [3, 1] (map rowset_id rowsets_ABCD) = 1"
    unfolding ids' by (simp add: matched_inputs_def first_position_def)
  have c5: "spec_input_error [3, 1] [1, 2, 3, 4] = InternalError ''input rowset 1 not exist''"
    by (simp add: spec_input_error_def matched_inputs_def first_position_def
        fmt_nat.simps digit_char_def)
  note tc = compaction_not_contiguous [OF c1 c2 c3, of example_config]
  from tc have "snd (nonpk_apply_compaction_log example_config ?CA ?m) = ?m" by simp
  moreover from tc have "fst (nonpk_apply_compaction_log example_config ?CA ?m)
              = spec_input_error (input_rowsets ?CA) (map rowset_id (rowsets ?m))"
    by blast
  then have "fst (nonpk_apply_compaction_log example_config ?CA ?m)
              = InternalError ''input rowset 1 not exist''"
    unfolding ids using c5 by simp
  ultimately have runc: "nonpk_apply_compaction_log example_config ?CA ?m
               = (InternalError ''input rowset 1 not exist'', ?m)"
    by (simp add: prod_eq_iff)
  show ?thesis by (intro conjI a1 a2 a3 a4 runa b2 b3 b4 runb c2 c3 c4 runc)
qed

subsection \<open>C4: the cumulative point after a compaction\<close>

text \<open>
  C4: with size-tiered compaction disabled and non-empty inputs, a successful
  non-primary-key compaction leaves \<open>cumulative_point\<close> at the value of the
  specification's case distinction (\<open>first_idx\<close>, the old point and the number of
  inputs read as natural numbers), and that value is at most the size of the rowset list
  after the splice; a run that ends in the \<open>new cumulative point ... exceeds rowset size\<close>
  error is one where the value is larger than that size. The rowset list fits a protobuf
  repeated field (fewer than \<open>2^31\<close> entries).
\<close>

theorem nonpk_compaction_cumulative_point:
  assumes nt: "\<not> enable_size_tiered_compaction_strategy cfg"
      and ne: "input_rowsets op \<noteq> []"
      and len: "length (rowsets m) < 2 ^ 31"
  shows "(fst (nonpk_apply_compaction_log cfg op m) = OK \<longrightarrow>
            unat (cumulative_point (snd (nonpk_apply_compaction_log cfg op m)))
              = spec_new_cumulative_point (find_if 0 (hd (input_rowsets op)) (rowsets m))
                  (unat (cumulative_point m)) (length (input_rowsets op)) (has_output op)
            \<and> unat (cumulative_point (snd (nonpk_apply_compaction_log cfg op m)))
                \<le> length (rowsets (snd (nonpk_apply_compaction_log cfg op m))))
         \<and> (\<forall>msg. fst (nonpk_apply_compaction_log cfg op m) = InternalError msg
                   \<and> prefix ''new cumulative point'' msg \<longrightarrow>
                 length (rowsets (snd (nonpk_apply_compaction_log cfg op m)))
                   < spec_new_cumulative_point (find_if 0 (hd (input_rowsets op)) (rowsets m))
                       (unat (cumulative_point m)) (length (input_rowsets op)) (has_output op))"
proof -
  from ne obtain x ids where inp: "input_rowsets op = x # ids"
    by (cases "input_rowsets op") auto
  show ?thesis
  proof (cases "find_if 0 x (rowsets m) = length (rowsets m)")
    case True
    with inp show ?thesis by (auto simp: nonpk_apply_compaction_log_def)
  next
    case found: False
    show ?thesis
    proof (cases "check_adjacent (rowsets m) (find_if 0 x (rowsets m)) ids")
      case (Inl st)
      from check_adjacent_Inl [OF Inl] inp found Inl show ?thesis
        by (auto simp: nonpk_apply_compaction_log_def)
    next
      case (Inr q)
      let ?i = "find_if 0 x (rowsets m)"
      let ?m' = "splice op ?i (?i + length (x # ids)) m"
      let ?F = "spec_new_cumulative_point ?i (unat (cumulative_point m))
                  (length (input_rowsets op)) (has_output op)"
      note f = spliced_fields [OF inp found Inr]
      have run: "nonpk_apply_compaction_log cfg op m = set_new_cumulative_point cfg op (of_nat ?i) ?m'"
        by (rule compaction_checks_passed [OF inp found Inr])
      have ib: "?i < 2 ^ 31" using f(6) len by simp
      have k1: "0 < length (input_rowsets op)" using inp by simp
      have k2: "length (input_rowsets op) < 2 ^ 31" using f(6) len inp by simp
      have "length (rowsets ?m') \<le> length (rowsets m) + 1"
        using f(2) f(6) length_placed_output [of op m] by simp
      then have nb: "length (rowsets ?m') < 2 ^ 32" using len by simp
      have eq: "set_new_cumulative_point cfg op (of_nat ?i) ?m' =
                  (if length (rowsets ?m') < ?F
                   then (InternalError (''new cumulative point: '' @ fmt_nat ?F
                           @ '' exceeds rowset size: '' @ fmt_nat (length (rowsets ?m'))), ?m')
                   else (OK, ?m'\<lparr>cumulative_point := of_nat ?F\<rparr>))"
        and Fb: "?F < 2 ^ 32"
        using set_new_cumulative_point_nat [OF nt ib k1 k2 nb] by (simp_all only: f(4))
      have uF: "unat (of_nat ?F :: u32) = ?F" using Fb by (rule unat_of_nat_u32)
      show ?thesis
      proof (cases "length (rowsets ?m') < ?F")
        case True
        then show ?thesis using run eq inp by simp
      next
        case False
        then show ?thesis using run eq inp uF by simp
      qed
    qed
  qed
qed

text \<open>
  The splice example: rowsets \<open>[A, B, C, D]\<close>, cumulative point 1, inputs \<open>[B, C]\<close>,
  an output with rows; the new cumulative point is 2 and three rowsets remain. And the
  error: rowsets \<open>[A, B]\<close> with a cumulative point of 5, input \<open>[A]\<close>; the value 4 is
  above the one rowset that remains.
\<close>

theorem nonpk_compaction_cumulative_point_witness:
  "\<not> enable_size_tiered_compaction_strategy example_config
   \<and> input_rowsets op_BC_to_X \<noteq> []
   \<and> length (rowsets (example_metadata rowsets_ABCD 100 1)) < 2 ^ 31
   \<and> fst (nonpk_apply_compaction_log example_config op_BC_to_X (example_metadata rowsets_ABCD 100 1)) = OK
   \<and> unat (cumulative_point (snd (nonpk_apply_compaction_log example_config op_BC_to_X
                                      (example_metadata rowsets_ABCD 100 1)))) = 2
   \<and> length (rowsets (snd (nonpk_apply_compaction_log example_config op_BC_to_X
                                      (example_metadata rowsets_ABCD 100 1)))) = 3
   \<and> input_rowsets op_A_only \<noteq> []
   \<and> length (rowsets (example_metadata [example_rowset 1 1 10, example_rowset 2 1 10] 3 5)) < 2 ^ 31
   \<and> fst (nonpk_apply_compaction_log example_config op_A_only
            (example_metadata [example_rowset 1 1 10, example_rowset 2 1 10] 3 5))
       = InternalError ''new cumulative point: 4 exceeds rowset size: 1''
   \<and> prefix ''new cumulative point'' ''new cumulative point: 4 exceeds rowset size: 1''
   \<and> length (rowsets (snd (nonpk_apply_compaction_log example_config op_A_only
            (example_metadata [example_rowset 1 1 10, example_rowset 2 1 10] 3 5))))
       < spec_new_cumulative_point 0 5 1 False"
proof -
  let ?m = "example_metadata rowsets_ABCD 100 1"
  have h1: "\<not> enable_size_tiered_compaction_strategy example_config"
    by (simp add: example_config_def)
  have h2: "input_rowsets op_BC_to_X \<noteq> []" by (simp add: op_BC_to_X_def)
  have h3: "length (rowsets ?m) < 2 ^ 31" by (simp add: example_metadata_def rowsets_ABCD_def)
  have ok: "fst (nonpk_apply_compaction_log example_config op_BC_to_X ?m) = OK"
    by (simp only: run_BC_to_X fst_conv)
  have idx: "find_if 0 (hd (input_rowsets op_BC_to_X)) (rowsets ?m) = 1"
    by (simp add: find_if_def op_BC_to_X_def example_metadata_def rowsets_ABCD_def example_rowset_def)
  have F: "spec_new_cumulative_point 1 (unat (cumulative_point ?m)) (length (input_rowsets op_BC_to_X))
             (has_output op_BC_to_X) = 2"
    by (simp add: spec_new_cumulative_point_def example_metadata_def op_BC_to_X_def has_output_def
        example_rowset_def)
  have cp: "unat (cumulative_point (snd (nonpk_apply_compaction_log example_config op_BC_to_X ?m))) = 2"
    using nonpk_compaction_cumulative_point [OF h1 h2 h3] ok idx F by simp
  have n: "length (rowsets (snd (nonpk_apply_compaction_log example_config op_BC_to_X ?m))) = 3"
    unfolding run_BC_to_X by (simp add: example_metadata_def)
  let ?m' = "example_metadata [example_rowset 1 1 10, example_rowset 2 1 10] 3 5"
  have g2: "input_rowsets op_A_only \<noteq> []" by (simp add: op_A_only_def)
  have g3: "length (rowsets ?m') < 2 ^ 31" by (simp add: example_metadata_def)
  have err: "fst (nonpk_apply_compaction_log example_config op_A_only ?m')
               = InternalError ''new cumulative point: 4 exceeds rowset size: 1''"
    by (simp only: run_A_only fst_conv)
  have pre: "prefix ''new cumulative point'' ''new cumulative point: 4 exceeds rowset size: 1''"
    by (simp add: prefix_Cons)
  have idx': "find_if 0 (hd (input_rowsets op_A_only)) (rowsets ?m') = 0"
    by (simp add: find_if_def op_A_only_def example_metadata_def example_rowset_def)
  have args: "unat (cumulative_point ?m') = 5" "length (input_rowsets op_A_only) = 1"
    "has_output op_A_only = False"
    by (simp_all add: example_metadata_def op_A_only_def has_output_def)
  from nonpk_compaction_cumulative_point [OF h1 g2 g3] err pre
  have big: "length (rowsets (snd (nonpk_apply_compaction_log example_config op_A_only ?m')))
               < spec_new_cumulative_point 0 5 1 False"
    unfolding idx' args by blast
  show ?thesis by (intro conjI h1 h2 h3 ok cp n g2 g3 err pre big)
qed



subsection \<open>C5: next\_rowset\_id after a schema change\<close>

text \<open>
  C5, as stated, at a metadata whose next id is 10 and a schema change carrying one
  rowset of id 1: both appliers leave \<open>next_rowset_id = 2\<close>, below the previous value,
  where the maximum of the claim is 10.
\<close>

theorem schema_change_lowers_next_rowset_id:
  "next_rowset_id (snd (nonpk_apply_schema_change_log op_schema_change_low_id (example_metadata [] 10 0))) = 2
   \<and> next_rowset_id (pk_metadata (snd (pk_apply_schema_change_log
        (example_collaborators OK RecoverFlag_OK OK) op_schema_change_low_id
        (PrimaryKeyTxnLogApplier 7 (example_metadata [] 10 0) 2 [])))) = 2
   \<and> max_rowset_id_end (next_rowset_id (example_metadata [] 10 0))
        (sc_rowsets op_schema_change_low_id) = 10
   \<and> (2 :: u32) < next_rowset_id (example_metadata [] 10 0)"
  by (simp add: nonpk_apply_schema_change_log_def pk_apply_schema_change_log_def
      op_schema_change_low_id_def example_metadata_def example_rowset_def add_schema_change_rowset_def
      PrimaryKeyTxnLogApplier_def max_rowset_id_end_def rowset_id_end_def
      segments_size_def)

text \<open>
  C5, amended: in both appliers a schema change appends the op's rowsets with their own
  ids, and leaves \<open>next_rowset_id\<close> at \<open>id + max(1, segments_size)\<close> (modulo \<open>2^32\<close>)
  of the last rowset of the op, or as it was when the op carries no rowset. That is the
  maximum of the claim whenever neither the previous value \<open>n\<close> nor an earlier rowset's
  range end lies above the last rowset's.
\<close>

theorem schema_change_next_rowset_id:
  "next_rowset_id (snd (nonpk_apply_schema_change_log op m))
     = (if sc_rowsets op = [] then next_rowset_id m else rowset_id_end (last (sc_rowsets op)))
   \<and> rowsets (snd (nonpk_apply_schema_change_log op m)) = rowsets m @ sc_rowsets op
   \<and> next_rowset_id (pk_metadata (snd (pk_apply_schema_change_log c op s)))
     = (if sc_rowsets op = [] then next_rowset_id (pk_metadata s)
        else rowset_id_end (last (sc_rowsets op)))
   \<and> rowsets (pk_metadata (snd (pk_apply_schema_change_log c op s)))
     = rowsets (pk_metadata s) @ sc_rowsets op
   \<and> (sc_rowsets op \<noteq> [] \<and> n \<le> rowset_id_end (last (sc_rowsets op))
        \<and> (\<forall>r\<in>set (sc_rowsets op). rowset_id_end r \<le> rowset_id_end (last (sc_rowsets op)))
      \<longrightarrow> max_rowset_id_end n (sc_rowsets op) = rowset_id_end (last (sc_rowsets op)))"
proof -
  have pk: "pk_metadata (snd (pk_apply_schema_change_log c op s))
              = (case sc_delvec_meta op of
                   None \<Rightarrow> foldl add_schema_change_rowset (pk_metadata s) (sc_rowsets op)
                 | Some d \<Rightarrow> (foldl add_schema_change_rowset (pk_metadata s) (sc_rowsets op))\<lparr>delvec_meta := d\<rparr>)"
    by (simp add: pk_apply_schema_change_log_def Let_def split: prod.splits option.splits)
  show ?thesis
    unfolding pk
    by (auto simp: nonpk_apply_schema_change_log_def foldl_add_schema_change_rowset
        max_rowset_id_end_def foldl_max_last split: option.splits)
qed

text \<open>Rowsets of ids 1 (one segment) and 5 (two segments) on an empty metadata: 7.\<close>

theorem schema_change_next_rowset_id_witness:
  "sc_rowsets op_schema_change_rising_ids \<noteq> []
   \<and> (0 :: u32) \<le> rowset_id_end (last (sc_rowsets op_schema_change_rising_ids))
   \<and> list_all (\<lambda>r. rowset_id_end r \<le> rowset_id_end (last (sc_rowsets op_schema_change_rising_ids)))
        (sc_rowsets op_schema_change_rising_ids)
   \<and> next_rowset_id (snd (nonpk_apply_schema_change_log op_schema_change_rising_ids
                              (example_metadata [] 0 0))) = 7
   \<and> next_rowset_id (pk_metadata (snd (pk_apply_schema_change_log
        (example_collaborators OK RecoverFlag_OK OK) op_schema_change_rising_ids
        (PrimaryKeyTxnLogApplier 7 (example_metadata [] 0 0) 2 [])))) = 7
   \<and> max_rowset_id_end 0 (sc_rowsets op_schema_change_rising_ids) = 7"
proof -
  let ?op = op_schema_change_rising_ids
  have e: "rowset_id_end (last (sc_rowsets ?op)) = 7"
    by (simp add: op_schema_change_rising_ids_def rowset_id_end_def example_rowset_def segments_size_def)
  have h1: "sc_rowsets ?op \<noteq> []" by (simp add: op_schema_change_rising_ids_def)
  have h2: "(0 :: u32) \<le> rowset_id_end (last (sc_rowsets ?op))" by simp
  have h3: "\<forall>r\<in>set (sc_rowsets ?op). rowset_id_end r \<le> rowset_id_end (last (sc_rowsets ?op))"
    unfolding e
    by (simp add: op_schema_change_rising_ids_def rowset_id_end_def example_rowset_def segments_size_def)
  note t = schema_change_next_rowset_id [of ?op "example_metadata [] 0 0"
      "example_collaborators OK RecoverFlag_OK OK"
      "PrimaryKeyTxnLogApplier 7 (example_metadata [] 0 0) 2 []" 0]
  from t h1 h2 h3 e
  have "next_rowset_id (snd (nonpk_apply_schema_change_log ?op (example_metadata [] 0 0))) = 7"
    and "next_rowset_id (pk_metadata (snd (pk_apply_schema_change_log
          (example_collaborators OK RecoverFlag_OK OK) ?op
          (PrimaryKeyTxnLogApplier 7 (example_metadata [] 0 0) 2 [])))) = 7"
    and "max_rowset_id_end 0 (sc_rowsets ?op) = 7"
    by simp_all
  then show ?thesis using h1 h2 h3 by (simp add: list_all_iff)
qed

subsection \<open>C6: the recover wrapper of write and compaction\<close>

text \<open>
  C6, as stated, with recover enabled and a recover routine that fails: a step that
  signals \<open>RECOVER\<close> makes the wrapper return the recover routine's error, not \<open>OK\<close>;
  a step that signals \<open>RECOVER_WITH_PUBLISH\<close> is not executed again (the calls end with
  \<open>recover\<close>; there is one publish).
\<close>

theorem failed_recover_is_returned:
  "enable_primary_key_recover example_config
   \<and> recover_flag (pk_builder (snd (pk_apply_write_log (failing_publish RECOVER (IOError ''recover failed''))
          write_one_segment 1 (pk_A [])))) = RECOVER
   \<and> fst (check_and_recover example_config (failing_publish RECOVER (IOError ''recover failed''))
          (pk_apply_write_log (failing_publish RECOVER (IOError ''recover failed'')) write_one_segment 1)
          (pk_A []))
       = IOError ''recover failed''
   \<and> recover_flag (pk_builder (snd (pk_apply_write_log
          (failing_publish RECOVER_WITH_PUBLISH (IOError ''recover failed''))
          write_one_segment 1 (pk_A [])))) = RECOVER_WITH_PUBLISH
   \<and> pk_world (snd (check_and_recover example_config
          (failing_publish RECOVER_WITH_PUBLISH (IOError ''recover failed''))
          (pk_apply_write_log (failing_publish RECOVER_WITH_PUBLISH (IOError ''recover failed''))
             write_one_segment 1)
          (pk_A [])))
       = [''lock'', ''prepare_primary_index'', ''publish_primary_key_tablet'', ''unlock'',
          ''release_primary_index_cache'', ''recover'']"
  by (simp add: example_run_defs)

text \<open>
  C6, amended: with recover enabled, let the step leave the builder's flag at
  \<open>RECOVER_WITH_PUBLISH\<close> or \<open>RECOVER\<close>, and let the recover routine return \<open>OK\<close> and
  leave the flag as the step set it. Then for \<open>RECOVER_WITH_PUBLISH\<close> the wrapper's
  result is that of one more execution of the step, started from the recovered state
  with the flag reset, and returned as it is: whatever status and flag that execution
  leaves go to the caller, with no second recover. For \<open>RECOVER\<close> the wrapper returns
  \<open>OK\<close> with the flag reset and does not execute the step again. When the recover routine
  fails, its status is returned at once; when the step leaves the flag at \<open>OK\<close>, the
  step's own status is returned.
\<close>

theorem check_and_recover_retries_once:
  assumes en: "enable_primary_key_recover cfg"
      and first: "publish_func s = (ret, s1)"
      and rec: "call (recover c) (release_entry c s1) = (rst, s2)"
  shows "(recover_flag (pk_builder s1) = RECOVER_WITH_PUBLISH \<and> rst = OK
            \<and> recover_flag (pk_builder s2) = recover_flag (pk_builder s1) \<longrightarrow>
          check_and_recover cfg c publish_func s = publish_func (set_recover_flag RecoverFlag_OK s2))
         \<and> (recover_flag (pk_builder s1) = RECOVER \<and> rst = OK
            \<and> recover_flag (pk_builder s2) = recover_flag (pk_builder s1) \<longrightarrow>
          check_and_recover cfg c publish_func s = (OK, set_recover_flag RecoverFlag_OK s2))
         \<and> (recover_flag (pk_builder s1) \<noteq> RecoverFlag_OK \<and> rst \<noteq> OK \<longrightarrow>
          check_and_recover cfg c publish_func s = (rst, s2))
         \<and> (recover_flag (pk_builder s1) = RecoverFlag_OK \<longrightarrow>
          check_and_recover cfg c publish_func s = (ret, s1))"
  using en first rec
  by (cases rst) (auto simp: check_and_recover_def need_recover_def need_re_publish_def)

text \<open>
  A write whose publish always fails and signals \<open>RECOVER_WITH_PUBLISH\<close>: two publish
  calls, one recover call, the second failure and its flag reach the caller. The same
  write with a publish that signals \<open>RECOVER\<close>: one publish call, \<open>OK\<close>, flag reset.
\<close>

theorem check_and_recover_retries_once_witness:
  "enable_primary_key_recover example_config
   \<and> recover_flag (pk_builder (snd (pk_apply_write_log (failing_publish RECOVER_WITH_PUBLISH OK)
          write_one_segment 1 (pk_A [])))) = RECOVER_WITH_PUBLISH
   \<and> fst (check_and_recover example_config (failing_publish RECOVER_WITH_PUBLISH OK)
          (pk_apply_write_log (failing_publish RECOVER_WITH_PUBLISH OK) write_one_segment 1) (pk_A []))
       = IOError ''duplicate key''
   \<and> recover_flag (pk_builder (snd (check_and_recover example_config (failing_publish RECOVER_WITH_PUBLISH OK)
          (pk_apply_write_log (failing_publish RECOVER_WITH_PUBLISH OK) write_one_segment 1) (pk_A []))))
       = RECOVER_WITH_PUBLISH
   \<and> count_list (pk_world (snd (check_and_recover example_config (failing_publish RECOVER_WITH_PUBLISH OK)
          (pk_apply_write_log (failing_publish RECOVER_WITH_PUBLISH OK) write_one_segment 1) (pk_A []))))
         ''publish_primary_key_tablet'' = 2
   \<and> count_list (pk_world (snd (check_and_recover example_config (failing_publish RECOVER_WITH_PUBLISH OK)
          (pk_apply_write_log (failing_publish RECOVER_WITH_PUBLISH OK) write_one_segment 1) (pk_A []))))
         ''recover'' = 1
   \<and> recover_flag (pk_builder (snd (pk_apply_write_log (failing_publish RECOVER OK)
          write_one_segment 1 (pk_A [])))) = RECOVER
   \<and> fst (check_and_recover example_config (failing_publish RECOVER OK)
          (pk_apply_write_log (failing_publish RECOVER OK) write_one_segment 1) (pk_A [])) = OK
   \<and> recover_flag (pk_builder (snd (check_and_recover example_config (failing_publish RECOVER OK)
          (pk_apply_write_log (failing_publish RECOVER OK) write_one_segment 1) (pk_A []))))
       = RecoverFlag_OK
   \<and> count_list (pk_world (snd (check_and_recover example_config (failing_publish RECOVER OK)
          (pk_apply_write_log (failing_publish RECOVER OK) write_one_segment 1) (pk_A []))))
         ''publish_primary_key_tablet'' = 1"
proof -
  let ?c = "failing_publish RECOVER_WITH_PUBLISH OK"
  let ?f = "pk_apply_write_log ?c write_one_segment 1"
  let ?s = "pk_A ([] :: string list)"
  let ?s1 = "snd (?f ?s)"
  let ?r = "call (recover ?c) (release_entry ?c ?s1)"
  have en: "enable_primary_key_recover example_config" by (simp add: example_config_def)
  have first: "?f ?s = (fst (?f ?s), ?s1)" by simp
  have rec: "?r = (fst ?r, snd ?r)" by simp
  have flag1: "recover_flag (pk_builder ?s1) = RECOVER_WITH_PUBLISH"
    by (simp add: example_run_defs)
  have rok: "fst ?r = OK" by (simp add: example_run_defs)
  have flag2: "recover_flag (pk_builder (snd ?r)) = recover_flag (pk_builder ?s1)"
    by (simp add: example_run_defs)
  from check_and_recover_retries_once [where publish_func = ?f and s = ?s, OF en first rec]
    flag1 rok flag2
  have run: "check_and_recover example_config ?c ?f ?s = ?f (set_recover_flag RecoverFlag_OK (snd ?r))"
    by simp
  have st: "fst (?f (set_recover_flag RecoverFlag_OK (snd ?r))) = IOError ''duplicate key''"
    by (simp add: example_run_defs)
  have fl: "recover_flag (pk_builder (snd (?f (set_recover_flag RecoverFlag_OK (snd ?r)))))
              = RECOVER_WITH_PUBLISH"
    by (simp add: example_run_defs)
  have w: "pk_world (snd (?f (set_recover_flag RecoverFlag_OK (snd ?r))))
             = [''lock'', ''prepare_primary_index'', ''publish_primary_key_tablet'', ''unlock'',
                ''release_primary_index_cache'', ''recover'', ''lock'', ''prepare_primary_index'',
                ''publish_primary_key_tablet'', ''unlock'']"
    by (simp add: example_run_defs)
  let ?c' = "failing_publish RECOVER OK"
  let ?f' = "pk_apply_write_log ?c' write_one_segment 1"
  let ?s1' = "snd (?f' ?s)"
  let ?r' = "call (recover ?c') (release_entry ?c' ?s1')"
  have first': "?f' ?s = (fst (?f' ?s), ?s1')" by simp
  have rec': "?r' = (fst ?r', snd ?r')" by simp
  have flag1': "recover_flag (pk_builder ?s1') = RECOVER"
    by (simp add: example_run_defs)
  have rok': "fst ?r' = OK" by (simp add: example_run_defs)
  have flag2': "recover_flag (pk_builder (snd ?r')) = recover_flag (pk_builder ?s1')"
    by (simp add: example_run_defs)
  from check_and_recover_retries_once [where publish_func = ?f' and s = ?s, OF en first' rec']
    flag1' rok' flag2'
  have run': "check_and_recover example_config ?c' ?f' ?s = (OK, set_recover_flag RecoverFlag_OK (snd ?r'))"
    by simp
  have fl': "recover_flag (pk_builder (set_recover_flag RecoverFlag_OK (snd ?r'))) = RecoverFlag_OK"
    by (simp add: set_recover_flag_def)
  have w': "pk_world (set_recover_flag RecoverFlag_OK (snd ?r'))
             = [''lock'', ''prepare_primary_index'', ''publish_primary_key_tablet'', ''unlock'',
                ''release_primary_index_cache'', ''recover'']"
    by (simp add: example_run_defs)
  have A: "count_list (pk_world (snd (?f (set_recover_flag RecoverFlag_OK (snd ?r)))))
             ''publish_primary_key_tablet'' = 2"
    and B: "count_list (pk_world (snd (?f (set_recover_flag RecoverFlag_OK (snd ?r))))) ''recover'' = 1"
    unfolding w by simp_all
  have C: "count_list (pk_world (set_recover_flag RecoverFlag_OK (snd ?r')))
             ''publish_primary_key_tablet'' = 1"
    unfolding w' by simp
  show ?thesis
    unfolding run run' fst_conv snd_conv
    by (intro conjI en flag1 st fl A B flag1' refl fl' C)
qed



subsection \<open>C7: embedded writes of an incremental-snapshot replication\<close>




subsection \<open>C8: full-snapshot replication on a primary-key tablet\<close>

text \<open>
  C8, as stated, at a tablet with one rowset of id 1 and next id 2, and a replicated
  rowset whose original id is \<open>2^32 - 1\<close>: the replication succeeds, the new id is the
  sum in unsigned 32-bit arithmetic, which is 1: below the pre-apply \<open>next_rowset_id\<close>
  and equal to the id of the old rowset now in \<open>compaction_inputs\<close>.
\<close>

theorem full_replication_id_wraps_around:
  "fst (pk_apply_replication_log (example_collaborators OK RecoverFlag_OK OK)
          (full_replication 2 [write_with_id 4294967295] []) 1 (pk_A [])) = OK
   \<and> next_rowset_id (pk_metadata (pk_A ([] :: string list))) = 2
   \<and> map rowset_id (rowsets (pk_metadata (snd (pk_apply_replication_log
          (example_collaborators OK RecoverFlag_OK OK)
          (full_replication 2 [write_with_id 4294967295] []) 1 (pk_A []))))) = [1]
   \<and> (1 :: u32) < 2
   \<and> map rowset_id (compaction_inputs (pk_metadata (snd (pk_apply_replication_log
          (example_collaborators OK RecoverFlag_OK OK)
          (full_replication 2 [write_with_id 4294967295] []) 1 (pk_A []))))) = [1]"
  by (simp add: example_replication_defs example_run_defs)

text \<open>
  C8, amended: after a successful primary-key full-snapshot replication the rowsets are
  the embedded writes' rowsets with the pre-apply \<open>next_rowset_id\<close> added to each id
  (modulo \<open>2^32\<close>), every delvec has been appended to the builder under its segment id
  plus the same pre-apply offset, \<open>next_rowset_id\<close> is the maximum of its old value and
  every new rowset's \<open>id + max(1, segments_size)\<close>, \<open>cumulative_point\<close> is 0,
  \<open>compaction_inputs\<close> holds the old rowsets, and the primary index of the tablet has
  been unloaded. Where no sum \<open>id + next_rowset_id + max(1, segments_size)\<close> reaches
  \<open>2^32\<close>, every new id is at least the pre-apply \<open>next_rowset_id\<close> and every new id
  range ends at or below the new \<open>next_rowset_id\<close>.
\<close>

theorem full_replication_rebases:
  assumes full: "\<not> incremental_snapshot (txn_meta op)"
      and ok: "pk_apply_replication_log c op txn s = (OK, s')"
  shows "rowsets (pk_metadata s') = map (rebased (next_rowset_id (pk_metadata s))) (op_writes op)
         \<and> appended_delvecs (pk_builder s')
             = appended_delvecs (pk_builder s)
               @ map (\<lambda>(segment_id, d). (DelVector (pk_new_version s) d,
                                           segment_id + next_rowset_id (pk_metadata s))) (delvecs op)
         \<and> next_rowset_id (pk_metadata s')
             = max_rowset_id_end (next_rowset_id (pk_metadata s)) (rowsets (pk_metadata s'))
         \<and> cumulative_point (pk_metadata s') = 0
         \<and> compaction_inputs (pk_metadata s') = rowsets (pk_metadata s)
         \<and> pk_world s' = unload_primary_index c (pk_tablet s) (pk_world s)
         \<and> ((\<forall>w\<in>set (op_writes op).
                unat (rowset_id (rowset_of w)) + unat (next_rowset_id (pk_metadata s))
                  + max 1 (segments_size (rowset_of w)) < 2 ^ 32)
             \<longrightarrow> (\<forall>r\<in>set (rowsets (pk_metadata s')).
                    next_rowset_id (pk_metadata s) \<le> rowset_id r
                    \<and> id_range_end r \<le> unat (next_rowset_id (pk_metadata s'))))"
proof -
  let ?n = "next_rowset_id (pk_metadata s)"
  let ?rs = "map (rebased ?n) (op_writes op)"
  let ?m2 = "(pk_metadata s)\<lparr>delvec_meta := [], rowsets := ?rs\<rparr>"
  let ?nn = "max_rowset_id_end ?n ?rs"
  from ok have framing: "txn_state (txn_meta op) = TXN_REPLICATED"
      "snapshot_version (txn_meta op) = pk_new_version s"
    by (auto simp: pk_apply_replication_log_def split: if_splits)
  obtain st b where ad: "append_delvecs c (pk_new_version s) ?n (delvecs op) (pk_builder s) = (st, b)"
    by (cases "append_delvecs c (pk_new_version s) ?n (delvecs op) (pk_builder s)")
  have st: "st = OK"
    using ok full framing ad
    by (cases st) (simp_all add: pk_apply_replication_log_def Let_def foldl_add_rebased_rowset)
  have run: "(OK, s') = (OK, pk_set_source_schema op
              (effect (unload_primary_index c (pk_tablet s))
                 (s\<lparr>pk_metadata := ?m2\<lparr>next_rowset_id := ?nn, cumulative_point := 0,
                                         compaction_inputs := rowsets (pk_metadata s)\<rparr>,
                    pk_builder := b\<rparr>)))"
    unfolding ok [symmetric] using full framing ad st
    by (simp add: pk_apply_replication_log_def Let_def foldl_add_rebased_rowset max_rowset_id_end_def)
  then have s': "s' = pk_set_source_schema op
              (effect (unload_primary_index c (pk_tablet s))
                 (s\<lparr>pk_metadata := ?m2\<lparr>next_rowset_id := ?nn, cumulative_point := 0,
                                         compaction_inputs := rowsets (pk_metadata s)\<rparr>,
                    pk_builder := b\<rparr>))"
    by (simp only: prod.inject)
  have rs: "rowsets (pk_metadata s') = ?rs"
    and nx: "next_rowset_id (pk_metadata s') = ?nn"
    and cp: "cumulative_point (pk_metadata s') = 0"
    and ci: "compaction_inputs (pk_metadata s') = rowsets (pk_metadata s)"
    and wd: "pk_world s' = unload_primary_index c (pk_tablet s) (pk_world s)"
    and bd: "pk_builder s' = b"
    unfolding s'
    by (simp_all add: pk_set_source_schema_def set_source_schema_def effect_def split: option.splits)
  from append_delvecs_OK [OF ad [unfolded st]]
  have dv: "appended_delvecs b = appended_delvecs (pk_builder s)
              @ map (\<lambda>(segment_id, d). (DelVector (pk_new_version s) d, segment_id + ?n)) (delvecs op)"
    by simp
  have cover: "?n \<le> rowset_id r \<and> id_range_end r \<le> unat ?nn"
    if no: "\<forall>w\<in>set (op_writes op).
              unat (rowset_id (rowset_of w)) + unat ?n + max 1 (segments_size (rowset_of w)) < 2 ^ 32"
      and r: "r \<in> set ?rs" for r
  proof -
    from r obtain w where w: "w \<in> set (op_writes op)" and rw: "r = rebased ?n w" by auto
    from no w have b: "unat (rowset_id (rowset_of w)) + unat ?n + max 1 (segments_size (rowset_of w)) < 2 ^ 32"
      by blast
    have "rowset_id_end r \<le> ?nn"
      unfolding max_rowset_id_end_def using r by (rule foldl_max_ge_elem)
    then have "unat (rowset_id_end r) \<le> unat ?nn" by (simp add: word_le_nat_alt)
    then show ?thesis using rebased_no_overflow [OF b] rw by simp
  qed
  show ?thesis
    unfolding rs nx cp ci wd bd dv using cover by simp
qed

text \<open>
  The scenario of the specification: next id 20, replicated ids 0, 1 and 5 become 20, 21
  and 25, the delvec of segment 0 goes under 20, the next id is 26.
\<close>

theorem full_replication_rebases_witness:
  "\<not> incremental_snapshot (txn_meta replication_S3)
   \<and> fst (pk_apply_replication_log (example_collaborators OK RecoverFlag_OK OK) replication_S3 1 pk_S3) = OK
   \<and> list_all (\<lambda>w. unat (rowset_id (rowset_of w)) + unat (next_rowset_id (pk_metadata pk_S3))
                      + max 1 (segments_size (rowset_of w)) < 2 ^ 32) (op_writes replication_S3)
   \<and> map rowset_id (rowsets (pk_metadata (snd (pk_apply_replication_log
          (example_collaborators OK RecoverFlag_OK OK) replication_S3 1 pk_S3)))) = [20, 21, 25]
   \<and> appended_delvecs (pk_builder (snd (pk_apply_replication_log
          (example_collaborators OK RecoverFlag_OK OK) replication_S3 1 pk_S3)))
       = [(DelVector 10 ''delvec'', 20)]
   \<and> next_rowset_id (pk_metadata (snd (pk_apply_replication_log
          (example_collaborators OK RecoverFlag_OK OK) replication_S3 1 pk_S3))) = 26
   \<and> cumulative_point (pk_metadata (snd (pk_apply_replication_log
          (example_collaborators OK RecoverFlag_OK OK) replication_S3 1 pk_S3))) = 0
   \<and> compaction_inputs (pk_metadata (snd (pk_apply_replication_log
          (example_collaborators OK RecoverFlag_OK OK) replication_S3 1 pk_S3)))
       = [example_rowset 1 1 10]
   \<and> pk_world (snd (pk_apply_replication_log
          (example_collaborators OK RecoverFlag_OK OK) replication_S3 1 pk_S3))
       = [''unload_primary_index'']
   \<and> list_all (\<lambda>r. 20 \<le> rowset_id r \<and> id_range_end r \<le> 26)
        (rowsets (pk_metadata (snd (pk_apply_replication_log
          (example_collaborators OK RecoverFlag_OK OK) replication_S3 1 pk_S3))))"
proof -
  let ?c = "example_collaborators OK RecoverFlag_OK OK"
  let ?r = "pk_apply_replication_log ?c replication_S3 1 pk_S3"
  have full: "\<not> incremental_snapshot (txn_meta replication_S3)"
    by (simp add: replication_S3_def full_replication_def)
  have st: "fst ?r = OK"
    by (simp add: replication_S3_def pk_S3_def example_replication_defs example_run_defs)
  then have ok: "?r = (OK, snd ?r)" by (simp add: prod_eq_iff)
  have ws: "op_writes replication_S3 = [write_with_id 0, write_with_id 1, write_with_id 5]"
    and ds: "delvecs replication_S3 = [(0, ''delvec'')]"
    by (simp_all add: replication_S3_def full_replication_def)
  have n0: "next_rowset_id (pk_metadata pk_S3) = 20"
    and r0: "rowsets (pk_metadata pk_S3) = [example_rowset 1 1 10]"
    and b0: "appended_delvecs (pk_builder pk_S3) = []"
    and v0: "pk_new_version pk_S3 = 10"
    and w0: "pk_world pk_S3 = []" and t0: "pk_tablet pk_S3 = 7"
    by (simp_all add: pk_S3_def PrimaryKeyTxnLogApplier_def example_metadata_def)
  have no: "\<forall>w\<in>set (op_writes replication_S3).
              unat (rowset_id (rowset_of w)) + unat (next_rowset_id (pk_metadata pk_S3))
                + max 1 (segments_size (rowset_of w)) < 2 ^ 32"
    unfolding ws n0
    by (simp add: write_with_id_def rowset_of_def example_rowset_def segments_size_def)
  note t = full_replication_rebases [OF full ok]
  have rs: "rowsets (pk_metadata (snd ?r)) = map (rebased 20) (op_writes replication_S3)"
    using t n0 by simp
  have ids: "map rowset_id (rowsets (pk_metadata (snd ?r))) = [20, 21, 25]"
    unfolding rs ws
    by (simp add: rebased_def write_with_id_def rowset_of_def example_rowset_def)
  have dv: "appended_delvecs (pk_builder (snd ?r)) = [(DelVector 10 ''delvec'', 20)]"
    using t unfolding ds n0 b0 v0 by simp
  have nx: "next_rowset_id (pk_metadata (snd ?r)) = 26"
    using t unfolding rs n0 ws
    by (simp add: max_rowset_id_end_def rowset_id_end_def rebased_def write_with_id_def rowset_of_def
        example_rowset_def segments_size_def)
  have cp: "cumulative_point (pk_metadata (snd ?r)) = 0" using t by simp
  have ci: "compaction_inputs (pk_metadata (snd ?r)) = [example_rowset 1 1 10]"
    using t r0 by simp
  have wd: "pk_world (snd ?r) = [''unload_primary_index'']"
    using t unfolding w0 t0 by (simp add: example_collaborators_def logged_def)
  have cover: "\<forall>r\<in>set (rowsets (pk_metadata (snd ?r))).
                 20 \<le> rowset_id r \<and> id_range_end r \<le> 26"
    using t no unfolding n0 nx by simp
  show ?thesis
    using full st no ids dv nx cp ci wd cover by (simp add: list_all_iff)
qed

subsection \<open>C9: the version field of the in-memory metadata\<close>

text \<open>
  C9, as stated, on a non-primary-key applier built from a metadata of version 1 with
  \<open>new_version = 2\<close>: the in-memory version is 1 after construction and after an apply,
  not 2, and \<open>finish\<close> is the operation that changes it to 2.
\<close>

theorem nonpk_version_is_base_until_finish:
  "version (np_metadata (NonPrimaryKeyTxnLogApplier 7 (example_metadata [] 0 0) 2 [])) = 1
   \<and> np_new_version (NonPrimaryKeyTxnLogApplier 7 (example_metadata [] 0 0) 2 []) = 2
   \<and> version (np_metadata (snd (nonpk_apply example_config (example_collaborators OK RecoverFlag_OK OK)
        ((empty_log 1)\<lparr>log_op_write := Some write_one_segment\<rparr>)
        (NonPrimaryKeyTxnLogApplier 7 (example_metadata [] 0 0) 2 [])))) = 1
   \<and> version (np_metadata (snd (nonpk_finish (example_collaborators OK RecoverFlag_OK OK)
        (NonPrimaryKeyTxnLogApplier 7 (example_metadata [] 0 0) 2 [])))) = 2"
  by (simp add: NonPrimaryKeyTxnLogApplier_def example_metadata_def nonpk_finish_def
      example_collaborators_def nonpk_apply_def then_do_def empty_log_def on_metadata_def
      nonpk_apply_write_log_def write_one_segment_def example_rowset_def)

text \<open>
  C9, amended: the primary-key applier sets the in-memory version to \<open>new_version\<close> in
  its constructor, and no statement of its \<open>apply\<close> (any op kind, the checkpoint write
  of a schema change included) or \<open>finish\<close> changes it or \<open>_new_version\<close>, as long as
  the collaborators that are handed the metadata give it back with the version they got.
  The non-primary-key applier keeps the version of the base metadata through construction
  and every \<open>apply\<close>; its \<open>finish\<close> sets the version to \<open>new_version\<close>.
\<close>

theorem version_through_applier_life:
  "version (pk_metadata (PrimaryKeyTxnLogApplier t m nv w)) = nv
   \<and> pk_new_version (PrimaryKeyTxnLogApplier t m nv w) = nv
   \<and> (collaborators_keep_version c \<longrightarrow>
        version (pk_metadata (snd (pk_apply cfg c log s))) = version (pk_metadata s)
        \<and> pk_new_version (snd (pk_apply cfg c log s)) = pk_new_version s
        \<and> version (pk_metadata (snd (pk_finish c s))) = version (pk_metadata s)
        \<and> pk_new_version (snd (pk_finish c s)) = pk_new_version s)
   \<and> version (np_metadata (NonPrimaryKeyTxnLogApplier t m nv w')) = version m
   \<and> np_new_version (NonPrimaryKeyTxnLogApplier t m nv w') = nv
   \<and> version (np_metadata (snd (nonpk_apply cfg c' log s'))) = version (np_metadata s')
   \<and> np_new_version (snd (nonpk_apply cfg c' log s')) = np_new_version s'
   \<and> version (np_metadata (snd (nonpk_finish c' s'))) = np_new_version s'"
proof -
  have pk: "collaborators_keep_version c \<Longrightarrow>
              pk_versions (snd (pk_apply cfg c log s)) = pk_versions s
              \<and> pk_versions (snd (pk_finish c s)) = pk_versions s"
    using pk_keepsD [OF pk_keeps_apply] pk_keepsD [OF pk_keeps_finish] by blast
  have np: "np_versions (snd (nonpk_apply cfg c' log s')) = np_versions s'"
    using np_keeps_apply [of cfg c' log] by (simp add: np_keeps_def)
  have fin: "version (np_metadata (snd (nonpk_finish c' s'))) = np_new_version s'"
    by (simp add: nonpk_finish_def Let_def split_beta)
  show ?thesis
    using pk np fin
    by (simp add: pk_versions_def np_versions_def PrimaryKeyTxnLogApplier_def
        NonPrimaryKeyTxnLogApplier_def)
qed

text \<open>A primary-key applier for version 2 with the example collaborators: a write, a finish.\<close>

theorem version_through_applier_life_witness:
  "collaborators_keep_version (example_collaborators OK RecoverFlag_OK OK)
   \<and> version (pk_metadata (snd (pk_apply example_config (example_collaborators OK RecoverFlag_OK OK)
        ((empty_log 1)\<lparr>log_op_write := Some write_one_segment\<rparr>)
        (PrimaryKeyTxnLogApplier 7 (example_metadata [] 0 0) 2 [])))) = 2
   \<and> version (pk_metadata (snd (pk_finish (example_collaborators OK RecoverFlag_OK OK)
        (PrimaryKeyTxnLogApplier 7 (example_metadata [] 0 0) 2 [])))) = 2"
proof -
  let ?c = "example_collaborators OK RecoverFlag_OK OK"
  let ?s = "PrimaryKeyTxnLogApplier 7 (example_metadata [] 0 0) 2 ([] :: string list)"
  let ?log = "(empty_log 1)\<lparr>log_op_write := Some write_one_segment\<rparr>"
  have h: "collaborators_keep_version ?c" by (rule example_collaborators_keep_version)
  have v: "version (pk_metadata ?s) = 2" by (simp add: PrimaryKeyTxnLogApplier_def)
  from version_through_applier_life [of 7 "example_metadata [] 0 0" 2 "[] :: string list" ?c
      example_config ?log ?s "[] :: string list" ?c "NonPrimaryKeyTxnLogApplier 7 (example_metadata [] 0 0) 2 []"] h v
  show ?thesis by simp
qed

subsection \<open>C10: the cumulative-point error comes after the splice\<close>

text \<open>
  C10: when a non-primary-key compaction returns the
  \<open>new cumulative point ... exceeds rowset size\<close> error, the metadata it leaves behind
  already has the input rowsets appended to \<open>compaction_inputs\<close> and removed from
  \<open>rowsets\<close>, the output rowset (when the op has one with rows) in the first input's
  slot, and \<open>next_rowset_id\<close> moved on by the output's segment count; only
  \<open>cumulative_point\<close> keeps its old value. The metadata differs from the one before
  the call.
\<close>

theorem cumulative_point_error_not_atomic:
  assumes err: "fst (nonpk_apply_compaction_log cfg op m) = InternalError msg"
      and msg: "prefix ''new cumulative point'' msg"
  shows "compaction_inputs (snd (nonpk_apply_compaction_log cfg op m))
           = compaction_inputs m @ moved_inputs op m
         \<and> map rowset_id (moved_inputs op m) = input_rowsets op
         \<and> rowsets (snd (nonpk_apply_compaction_log cfg op m))
             = take (find_if 0 (hd (input_rowsets op)) (rowsets m)) (rowsets m)
               @ placed_output op m
               @ drop (find_if 0 (hd (input_rowsets op)) (rowsets m) + length (input_rowsets op)) (rowsets m)
         \<and> next_rowset_id (snd (nonpk_apply_compaction_log cfg op m)) = advanced_next_rowset_id op m
         \<and> cumulative_point (snd (nonpk_apply_compaction_log cfg op m)) = cumulative_point m
         \<and> snd (nonpk_apply_compaction_log cfg op m) \<noteq> m"
proof (cases "input_rowsets op")
  case Nil
  with err show ?thesis by (simp add: nonpk_apply_compaction_log_def)
next
  case (Cons x ids)
  show ?thesis
  proof (cases "find_if 0 x (rowsets m) = length (rowsets m)")
    case True
    with err msg Cons show ?thesis by (auto simp: nonpk_apply_compaction_log_def)
  next
    case found: False
    show ?thesis
    proof (cases "check_adjacent (rowsets m) (find_if 0 x (rowsets m)) ids")
      case (Inl st)
      from check_adjacent_Inl [OF Inl] err msg Cons found Inl show ?thesis
        by (auto simp: nonpk_apply_compaction_log_def)
    next
      case (Inr q)
      let ?i = "find_if 0 x (rowsets m)"
      let ?m' = "splice op ?i (?i + length (x # ids)) m"
      have run: "nonpk_apply_compaction_log cfg op m = set_new_cumulative_point cfg op (of_nat ?i) ?m'"
        by (rule compaction_checks_passed [OF Cons found Inr])
      with err have "fst (set_new_cumulative_point cfg op (of_nat ?i) ?m') \<noteq> OK" by simp
      then have res: "snd (nonpk_apply_compaction_log cfg op m) = ?m'"
        using run by (simp add: set_new_cumulative_point_error)
      note f = spliced_fields [OF Cons found Inr]
      have "compaction_inputs ?m' \<noteq> compaction_inputs m"
      proof -
        have "length (moved_inputs op m) = length (input_rowsets op)"
          using f(5) by (metis length_map)
        then have "moved_inputs op m \<noteq> []" using Cons by auto
        then show ?thesis using f(1) by simp
      qed
      then have ne: "?m' \<noteq> m" by auto
      show ?thesis using res f ne Cons by simp
    qed
  qed
qed

text \<open>
  Rowsets \<open>[A, B]\<close> with a cumulative point of 5 (beyond the list), next id 3, and a
  compaction of \<open>[A]\<close> into an output with rows: the error is returned; \<open>A\<close> has moved
  to \<open>compaction_inputs\<close>, the output sits in its slot under id 3 and the next id is 4
  all the same.
\<close>

theorem cumulative_point_error_not_atomic_witness:
  "fst (nonpk_apply_compaction_log example_config op_A_to_X
          (example_metadata [example_rowset 1 1 10, example_rowset 2 1 10] 3 5))
     = InternalError ''new cumulative point: 5 exceeds rowset size: 2''
   \<and> prefix ''new cumulative point'' ''new cumulative point: 5 exceeds rowset size: 2''
   \<and> compaction_inputs (snd (nonpk_apply_compaction_log example_config op_A_to_X
          (example_metadata [example_rowset 1 1 10, example_rowset 2 1 10] 3 5)))
       = [example_rowset 1 1 10]
   \<and> rowsets (snd (nonpk_apply_compaction_log example_config op_A_to_X
          (example_metadata [example_rowset 1 1 10, example_rowset 2 1 10] 3 5)))
       = [example_rowset 3 1 10, example_rowset 2 1 10]
   \<and> next_rowset_id (snd (nonpk_apply_compaction_log example_config op_A_to_X
          (example_metadata [example_rowset 1 1 10, example_rowset 2 1 10] 3 5))) = 4
   \<and> cumulative_point (snd (nonpk_apply_compaction_log example_config op_A_to_X
          (example_metadata [example_rowset 1 1 10, example_rowset 2 1 10] 3 5))) = 5"
proof -
  let ?m = "example_metadata [example_rowset 1 1 10, example_rowset 2 1 10] 3 5"
  have h1: "fst (nonpk_apply_compaction_log example_config op_A_to_X ?m)
              = InternalError ''new cumulative point: 5 exceeds rowset size: 2''"
    by (simp only: run_A_to_X fst_conv)
  have h2: "prefix ''new cumulative point'' ''new cumulative point: 5 exceeds rowset size: 2''"
    by (simp add: prefix_Cons)
  have mv: "moved_inputs op_A_to_X ?m = [example_rowset 1 1 10]"
    by (simp add: moved_inputs_def op_A_to_X_def example_metadata_def find_if_def example_rowset_def)
  have idx: "find_if 0 (hd (input_rowsets op_A_to_X)) (rowsets ?m) = 0"
    by (simp add: op_A_to_X_def example_metadata_def find_if_def example_rowset_def)
  have po: "placed_output op_A_to_X ?m = [example_rowset 3 1 10]"
    by (simp add: placed_output_def op_A_to_X_def example_metadata_def example_rowset_def)
  have nx: "advanced_next_rowset_id op_A_to_X ?m = 4"
    by (simp add: advanced_next_rowset_id_def op_A_to_X_def example_metadata_def example_rowset_def
        segments_size_def)
  note t = cumulative_point_error_not_atomic [OF h1 h2]
  from t mv have a: "compaction_inputs (snd (nonpk_apply_compaction_log example_config op_A_to_X ?m))
          = [example_rowset 1 1 10]"
    by (simp add: example_metadata_def)
  from t idx po have b: "rowsets (snd (nonpk_apply_compaction_log example_config op_A_to_X ?m))
          = [example_rowset 3 1 10, example_rowset 2 1 10]"
    by (simp add: example_metadata_def op_A_to_X_def)
  from t nx have c: "next_rowset_id (snd (nonpk_apply_compaction_log example_config op_A_to_X ?m)) = 4"
    by simp
  from t have d: "cumulative_point (snd (nonpk_apply_compaction_log example_config op_A_to_X ?m)) = 5"
    by (simp add: example_metadata_def)
  show ?thesis by (intro conjI h1 h2 a b c d)
qed


end
